theory Spec2Isabelle
  imports Complex_Main "HOL-Library.Word"
begin

section \<open>Tensors, errors and the two-layer network\<close>

text \<open>
  Floating-point tensors are modelled over the reals: a vector is a list of reals, a matrix
  the list of its rows. Every exception the Python code can raise is a value of
  \<open>py_error\<close>, and a computation that can raise returns \<open>py_error + 'a\<close>.
\<close>

type_synonym vec = "real list"
type_synonym mat = "real list list"

datatype py_error =
  ZeroDivisionError | RuntimeError | ValueError | TypeError | IndexError | ScopeParamShapeError

text \<open>Applying a fallible function to every element of a batch; the first exception wins.\<close>

fun traverse :: "('a \<Rightarrow> py_error + 'b) \<Rightarrow> 'a list \<Rightarrow> py_error + 'b list" where
  "traverse f [] = Inr []"
| "traverse f (x # xs) =
     (case f x of
        Inl e \<Rightarrow> Inl e
      | Inr y \<Rightarrow> (case traverse f xs of Inl e \<Rightarrow> Inl e | Inr ys \<Rightarrow> Inr (y # ys)))"

definition has_shape :: "nat \<Rightarrow> nat \<Rightarrow> mat \<Rightarrow> bool" where
  "has_shape r c m = (length m = r \<and> list_all (\<lambda>row. length row = c) m)"

definition dot :: "vec \<Rightarrow> vec \<Rightarrow> real" where
  "dot xs ys = sum_list (map2 (*) xs ys)"

definition relu :: "vec \<Rightarrow> vec" where
  "relu = map (\<lambda>v. max 0 v)"

subsection \<open>PyTorch: \<open>class Net(nn.Module)\<close>\<close>

text \<open>
  \<open>nn.Linear(n_in, n_out)\<close> holds a weight of \<open>n_out\<close> rows of \<open>n_in\<close> entries and a
  bias of \<open>n_out\<close> entries; applied to one example it returns
  \<open>weight \<cdot> x + bias\<close>, and raises when the example's size is not the rows' length.
\<close>

record Linear =
  weight :: mat
  bias :: vec

record Net =
  fc1 :: Linear
  fc2 :: Linear
  training :: bool

definition linear_out :: "Linear \<Rightarrow> vec \<Rightarrow> vec" where
  "linear_out l x = map2 (\<lambda>row b. dot row x + b) (weight l) (bias l)"

definition linear_forward :: "Linear \<Rightarrow> vec \<Rightarrow> py_error + vec" where
  "linear_forward l x =
     (if list_all (\<lambda>row. length row = length x) (weight l) \<and> length (bias l) = length (weight l)
      then Inr (linear_out l x) else Inl RuntimeError)"

text \<open>
  An image is the list of its pixel rows; \<open>torch.flatten(x, 1)\<close> concatenates them for
  every example of the batch. \<open>forward\<close> follows the three lines of \<open>Net.forward\<close>.
\<close>

definition flatten :: "mat list \<Rightarrow> vec list" where
  "flatten x = map concat x"

definition forward :: "Net \<Rightarrow> mat list \<Rightarrow> py_error + vec list" where
  "forward net x =
     (let x = flatten x in
      case traverse (linear_forward (fc1 net)) x of
        Inl e \<Rightarrow> Inl e
      | Inr h \<Rightarrow> traverse (linear_forward (fc2 net)) (map relu h))"

subsection \<open>Top-1 prediction\<close>

text \<open>
  \<open>torch.max(outputs, 1)\<close> returns, for every row, the index of its first maximal entry,
  and raises \<open>IndexError\<close> on a row with no entries.
\<close>

fun argmax_from :: "nat \<Rightarrow> real \<Rightarrow> nat \<Rightarrow> vec \<Rightarrow> nat" where
  "argmax_from i best bi [] = bi"
| "argmax_from i best bi (x # xs) =
     (if best < x then argmax_from (Suc i) x i xs else argmax_from (Suc i) best bi xs)"

definition argmax :: "vec \<Rightarrow> py_error + int" where
  "argmax xs = (case xs of [] \<Rightarrow> Inl IndexError | x # rest \<Rightarrow> Inr (int (argmax_from 1 x 0 rest)))"

text \<open>
  \<open>predicted == labels\<close> compares elementwise; tensors of different lengths are broadcast
  when one of them has a single entry, and the comparison raises otherwise.
\<close>

definition eq_broadcast :: "int list \<Rightarrow> int list \<Rightarrow> py_error + bool list" where
  "eq_broadcast p l =
     (if length p = length l then Inr (map2 (=) p l)
      else if length p = 1 then Inr (map (\<lambda>y. hd p = y) l)
      else if length l = 1 then Inr (map (\<lambda>x. x = hd l) p)
      else Inl RuntimeError)"

definition count_true :: "bool list \<Rightarrow> int" where
  "count_true bs = int (length (filter id bs))"

section \<open>PyTorch evaluator: \<open>evaluate_model\<close>\<close>

text \<open>
  A data loader is the list of the batches it yields, each a pair of an image batch and a
  label batch. The \<open>for\<close> loop threads the two counters; \<open>model.eval()\<close> clears the
  module's training flag and is the only write to the module.
\<close>

type_synonym batch = "mat list \<times> int list"

fun eval_loop :: "Net \<Rightarrow> batch list \<Rightarrow> int \<Rightarrow> int \<Rightarrow> py_error + int \<times> int" where
  "eval_loop model [] correct total' = Inr (correct, total')"
| "eval_loop model ((images, labels) # rest) correct total' =
     (case forward model images of
        Inl e \<Rightarrow> Inl e
      | Inr outputs \<Rightarrow>
          (case traverse argmax outputs of
             Inl e \<Rightarrow> Inl e
           | Inr predicted \<Rightarrow>
               (let total' = total' + int (length labels) in
                case eq_broadcast predicted labels of
                  Inl e \<Rightarrow> Inl e
                | Inr hits \<Rightarrow> eval_loop model rest (correct + count_true hits) total')))"

definition evaluate_model :: "Net \<Rightarrow> batch list \<Rightarrow> (py_error + real) \<times> Net" where
  "evaluate_model model data_loader =
     (let model = model\<lparr>training := False\<rparr> in
      case eval_loop model data_loader 0 0 of
        Inl e \<Rightarrow> (Inl e, model)
      | Inr (correct, total') \<Rightarrow>
          if total' = 0 then (Inl ZeroDivisionError, model)
          else (Inr (100 * real_of_int correct / real_of_int total'), model))"

subsection \<open>Well-formed networks, images and batches\<close>

text \<open>
  \<open>Net.__init__\<close> creates \<open>fc1 = nn.Linear(784, 128)\<close> and \<open>fc2 = nn.Linear(128, 10)\<close>;
  \<open>net_ok\<close> states these shapes. An image is well-formed when it flattens to 784
  entries, a batch when every image does and it has one label per image.
  \<open>logits_of\<close> is the row of logits a well-formed network computes for one image,
  \<open>examples\<close> the sequence of all (image, label) pairs of a loader, and \<open>hit\<close> says
  that the first maximal logit of an example is at its label.
\<close>

definition first_max :: "vec \<Rightarrow> nat" where
  "first_max xs = (case xs of [] \<Rightarrow> 0 | x # rest \<Rightarrow> argmax_from 1 x 0 rest)"

definition net_ok :: "Net \<Rightarrow> bool" where
  "net_ok net =
     (has_shape 128 784 (weight (fc1 net)) \<and> length (bias (fc1 net)) = 128 \<and>
      has_shape 10 128 (weight (fc2 net)) \<and> length (bias (fc2 net)) = 10)"

definition image_ok :: "mat \<Rightarrow> bool" where
  "image_ok img = (length (concat img) = 784)"

definition batch_ok :: "batch \<Rightarrow> bool" where
  "batch_ok b = (list_all image_ok (fst b) \<and> length (snd b) = length (fst b))"

definition logits_of :: "Net \<Rightarrow> mat \<Rightarrow> vec" where
  "logits_of net img = linear_out (fc2 net) (relu (linear_out (fc1 net) (concat img)))"

definition examples :: "batch list \<Rightarrow> (mat \<times> int) list" where
  "examples data_loader = concat (map (\<lambda>b. zip (fst b) (snd b)) data_loader)"

definition hit :: "Net \<Rightarrow> mat \<times> int \<Rightarrow> bool" where
  "hit net ex = (argmax (logits_of net (fst ex)) = Inr (snd ex))"

definition zero_image :: mat where
  "zero_image = replicate 28 (replicate 28 0)"

definition const_net :: "vec \<Rightarrow> Net" where
  "const_net b =
     \<lparr>fc1 = \<lparr>weight = replicate 128 (replicate 784 0), bias = replicate 128 0\<rparr>,
      fc2 = \<lparr>weight = replicate 10 (replicate 128 0), bias = b\<rparr>,
      training = True\<rparr>"

section \<open>PyTorch trainer: \<open>optim.SGD\<close> and the training loop\<close>

text \<open>
  After \<open>loss.backward()\<close> every parameter tensor carries a gradient; \<open>Grads\<close> holds the
  four of them in the order of \<open>net.parameters()\<close>.
\<close>

record Grads =
  fc1_weight_grad :: mat
  fc1_bias_grad :: vec
  fc2_weight_grad :: mat
  fc2_bias_grad :: vec

text \<open>
  The optimizer \<open>optim.SGD(net.parameters(), lr=0.001, momentum=0.9)\<close>: its two
  hyperparameters and one momentum buffer per parameter tensor, absent until the first
  step.
\<close>

record SGD =
  lr :: real
  momentum :: real
  fc1_weight_buf :: "mat option"
  fc1_bias_buf :: "vec option"
  fc2_weight_buf :: "mat option"
  fc2_bias_buf :: "vec option"

definition SGD_init :: SGD where
  "SGD_init = \<lparr>lr = 0.001, momentum = 0.9, fc1_weight_buf = None, fc1_bias_buf = None,
               fc2_weight_buf = None, fc2_bias_buf = None\<rparr>"

text \<open>
  Modelled from the spec: the body of \<open>torch.optim.SGD.step\<close> is library code that is
  not part of the notebook. The update is the one the specification attributes to the
  configured optimizer (buffer = momentum \<open>\<cdot>\<close> buffer + gradient; parameter \<open>-=\<close>
  lr \<open>\<cdot>\<close> buffer), with the library's first step, where the absent buffer is created as a
  copy of the gradient. Tensors are updated entry by entry; a gradient and a buffer have
  the shape of their parameter.
\<close>

definition sgd_buffer :: "real \<Rightarrow> vec option \<Rightarrow> vec \<Rightarrow> vec" where
  "sgd_buffer m buf grad =
     (case buf of None \<Rightarrow> grad | Some b \<Rightarrow> map2 (\<lambda>b g. m * b + g) b grad)"

definition sgd_single_tensor :: "real \<Rightarrow> real \<Rightarrow> vec \<times> vec option \<Rightarrow> vec \<Rightarrow> vec \<times> vec option" where
  "sgd_single_tensor a m pb grad =
     (let buf = sgd_buffer m (snd pb) grad
      in (map2 (\<lambda>p b. p + (- a) * b) (fst pb) buf, Some buf))"

definition sgd_buffer_mat :: "real \<Rightarrow> mat option \<Rightarrow> mat \<Rightarrow> mat" where
  "sgd_buffer_mat m buf grad =
     (case buf of None \<Rightarrow> grad | Some b \<Rightarrow> map2 (map2 (\<lambda>b g. m * b + g)) b grad)"

definition sgd_single_tensor_mat :: "real \<Rightarrow> real \<Rightarrow> mat \<times> mat option \<Rightarrow> mat \<Rightarrow> mat \<times> mat option" where
  "sgd_single_tensor_mat a m pb grad =
     (let buf = sgd_buffer_mat m (snd pb) grad
      in (map2 (map2 (\<lambda>p b. p + (- a) * b)) (fst pb) buf, Some buf))"

text \<open>\<open>optimizer.step()\<close>: the update of each of the four parameter tensors.\<close>

definition optimizer_step :: "SGD \<Rightarrow> Net \<Rightarrow> Grads \<Rightarrow> Net \<times> SGD" where
  "optimizer_step optimizer net grads =
     (let a = lr optimizer; m = momentum optimizer;
          w1 = sgd_single_tensor_mat a m (weight (fc1 net), fc1_weight_buf optimizer) (fc1_weight_grad grads);
          b1 = sgd_single_tensor a m (bias (fc1 net), fc1_bias_buf optimizer) (fc1_bias_grad grads);
          w2 = sgd_single_tensor_mat a m (weight (fc2 net), fc2_weight_buf optimizer) (fc2_weight_grad grads);
          b2 = sgd_single_tensor a m (bias (fc2 net), fc2_bias_buf optimizer) (fc2_bias_grad grads)
      in (net\<lparr>fc1 := \<lparr>weight = fst w1, bias = fst b1\<rparr>, fc2 := \<lparr>weight = fst w2, bias = fst b2\<rparr>\<rparr>,
          optimizer\<lparr>fc1_weight_buf := snd w1, fc1_bias_buf := snd b1,
                    fc2_weight_buf := snd w2, fc2_bias_buf := snd b2\<rparr>))"

text \<open>
  One iteration of the training loop. \<open>criterion(outputs, labels)\<close> followed by
  \<open>loss.backward()\<close> is the framework's automatic differentiation; it is the parameter
  \<open>loss_backward\<close>, which returns the gradients or raises. \<open>optimizer.zero_grad()\<close>
  makes the gradients of an iteration those of its own batch.
\<close>

definition training_step ::
  "(Net \<Rightarrow> vec list \<Rightarrow> int list \<Rightarrow> py_error + Grads) \<Rightarrow> Net \<times> SGD \<Rightarrow> batch \<Rightarrow> py_error + Net \<times> SGD" where
  "training_step loss_backward s data =
     (case s of (net, optimizer) \<Rightarrow>
      case data of (inputs, labels) \<Rightarrow>
        (case forward net inputs of
           Inl e \<Rightarrow> Inl e
         | Inr outputs \<Rightarrow>
             (case loss_backward net outputs labels of
                Inl e \<Rightarrow> Inl e
              | Inr grads \<Rightarrow> Inr (optimizer_step optimizer net grads))))"

text \<open>
  The loops \<open>for epoch in range(2): for data in trainloader\<close>: the loader yields, in every
  epoch, the batches of that epoch's order; an exception ends the run.
\<close>

fun run_epoch :: "('s \<Rightarrow> 'b \<Rightarrow> py_error + 's) \<Rightarrow> 's \<Rightarrow> 'b list \<Rightarrow> py_error + 's" where
  "run_epoch stp s [] = Inr s"
| "run_epoch stp s (b # bs) = (case stp s b of Inl e \<Rightarrow> Inl e | Inr s' \<Rightarrow> run_epoch stp s' bs)"

fun run_epochs :: "('s \<Rightarrow> 'b \<Rightarrow> py_error + 's) \<Rightarrow> (nat \<Rightarrow> 'b list) \<Rightarrow> 's \<Rightarrow> nat list \<Rightarrow> py_error + 's" where
  "run_epochs stp loader s [] = Inr s"
| "run_epochs stp loader s (epoch # rest) =
     (case run_epoch stp s (loader epoch) of Inl e \<Rightarrow> Inl e | Inr s' \<Rightarrow> run_epochs stp loader s' rest)"

definition train_torch ::
  "(Net \<Rightarrow> vec list \<Rightarrow> int list \<Rightarrow> py_error + Grads) \<Rightarrow> (nat \<Rightarrow> batch list) \<Rightarrow> Net \<times> SGD \<Rightarrow> py_error + Net \<times> SGD" where
  "train_torch loss_backward trainloader s = run_epochs (training_step loss_backward) trainloader s [0..<2]"


text \<open>
  The evaluation cell \<open>accuracy = evaluate_model(net, test_loader)\<close>, on the module and the
  optimizer the training cell left behind.
\<close>

definition evaluation_cell :: "Net \<times> SGD \<Rightarrow> batch list \<Rightarrow> (py_error + real) \<times> Net \<times> SGD" where
  "evaluation_cell s test_loader =
     (case s of (net, optimizer) \<Rightarrow>
        (case evaluate_model net test_loader of (accuracy, net') \<Rightarrow> (accuracy, net', optimizer)))"

text \<open>The four parameter tensors of the module, and equality of tensor shapes.\<close>

definition same_shape :: "mat \<Rightarrow> mat \<Rightarrow> bool" where
  "same_shape a b = (map length a = map length b)"

definition grads_ok :: "Net \<Rightarrow> Grads \<Rightarrow> bool" where
  "grads_ok net g =
     (same_shape (fc1_weight_grad g) (weight (fc1 net)) \<and> length (fc1_bias_grad g) = length (bias (fc1 net)) \<and>
      same_shape (fc2_weight_grad g) (weight (fc2 net)) \<and> length (fc2_bias_grad g) = length (bias (fc2 net)))"

definition buf_ok :: "vec \<Rightarrow> vec option \<Rightarrow> bool" where
  "buf_ok p buf = (case buf of None \<Rightarrow> True | Some b \<Rightarrow> length b = length p)"

definition buf_ok_mat :: "mat \<Rightarrow> mat option \<Rightarrow> bool" where
  "buf_ok_mat p buf = (case buf of None \<Rightarrow> True | Some b \<Rightarrow> same_shape b p)"

definition optimizer_ok :: "Net \<Rightarrow> SGD \<Rightarrow> bool" where
  "optimizer_ok net optimizer =
     (buf_ok_mat (weight (fc1 net)) (fc1_weight_buf optimizer) \<and> buf_ok (bias (fc1 net)) (fc1_bias_buf optimizer) \<and>
      buf_ok_mat (weight (fc2 net)) (fc2_weight_buf optimizer) \<and> buf_ok (bias (fc2 net)) (fc2_bias_buf optimizer))"

definition same_shapes :: "Net \<Rightarrow> Net \<Rightarrow> bool" where
  "same_shapes net net' =
     (same_shape (weight (fc1 net')) (weight (fc1 net)) \<and> length (bias (fc1 net')) = length (bias (fc1 net)) \<and>
      same_shape (weight (fc2 net')) (weight (fc2 net)) \<and> length (bias (fc2 net')) = length (bias (fc2 net)))"

text \<open>A gradient for a concrete run: the tensors of the parameters themselves.\<close>

definition grads_like :: "Net \<Rightarrow> Grads" where
  "grads_like net =
     \<lparr>fc1_weight_grad = weight (fc1 net), fc1_bias_grad = bias (fc1 net),
      fc2_weight_grad = weight (fc2 net), fc2_bias_grad = bias (fc2 net)\<rparr>"

section \<open>JAX: \<open>SimpleNN\<close> and the \<open>eval_step\<close> loop\<close>

text \<open>
  The parameters of \<open>SimpleNN\<close> are the dictionary
  \<open>{'Dense_0': {'kernel', 'bias'}, 'Dense_1': {'kernel', 'bias'}}\<close>. A flax kernel has one
  row per input feature: \<open>nn.Dense(features)\<close> applied to one example returns
  \<open>x \<cdot> kernel + bias\<close>, and raises \<open>ScopeParamShapeError\<close> unless the kernel has
  \<open>length x\<close> rows of \<open>features\<close> entries and the bias \<open>features\<close> entries.
\<close>

record Dense =
  kernel :: mat
  dense_bias :: vec

record params =
  Dense_0 :: Dense
  Dense_1 :: Dense

definition dense_out :: "Dense \<Rightarrow> vec \<Rightarrow> vec" where
  "dense_out d x =
     foldl (\<lambda>acc p. map2 (+) acc (map ((*) (fst p)) (snd p))) (dense_bias d) (zip x (kernel d))"

definition dense_apply :: "nat \<Rightarrow> Dense \<Rightarrow> vec \<Rightarrow> py_error + vec" where
  "dense_apply features d x =
     (if has_shape (length x) features (kernel d) \<and> length (dense_bias d) = features
      then Inr (dense_out d x) else Inl ScopeParamShapeError)"

text \<open>
  \<open>x.reshape(x.shape[0], -1)\<close> on a batch of images flattens every image; on a batch of no
  images the size of the second axis cannot be inferred and the call raises.
\<close>

definition reshape_rows :: "mat list \<Rightarrow> py_error + vec list" where
  "reshape_rows x = (if x = [] then Inl TypeError else Inr (flatten x))"

text \<open>
  \<open>SimpleNN.__call__\<close>: reshape, \<open>Dense(128)\<close>, \<open>relu\<close>, \<open>Dense(10)\<close>. The notebook
  applies the model to inputs that \<open>train_step\<close> and \<open>eval_step\<close> have already
  flattened, so its own reshape, of an array of two axes, returns the rows as they are,
  and raises when there are none.
\<close>

definition SimpleNN_apply :: "params \<Rightarrow> vec list \<Rightarrow> py_error + vec list" where
  "SimpleNN_apply ps x =
     (if x = [] then Inl TypeError
      else
        (case traverse (dense_apply 128 (Dense_0 ps)) x of
           Inl e \<Rightarrow> Inl e
         | Inr h \<Rightarrow> traverse (dense_apply 10 (Dense_1 ps)) (map relu h)))"

text \<open>
  \<open>jnp.argmax(logits, -1)\<close> returns, for every row, the index of its first maximal entry,
  and raises \<open>ValueError\<close> on a row with no entries. \<open>==\<close> on two arrays of one axis
  compares entry by entry, broadcasts an array of a single entry, and raises
  \<open>TypeError\<close> on other lengths that differ.
\<close>

definition jnp_argmax :: "vec \<Rightarrow> py_error + int" where
  "jnp_argmax xs = (case xs of [] \<Rightarrow> Inl ValueError | x # rest \<Rightarrow> Inr (int (argmax_from 1 x 0 rest)))"

definition jnp_equal :: "int list \<Rightarrow> int list \<Rightarrow> py_error + bool list" where
  "jnp_equal p l =
     (if length p = length l then Inr (map2 (=) p l)
      else if length p = 1 then Inr (map (\<lambda>y. hd p = y) l)
      else if length l = 1 then Inr (map (\<lambda>x. x = hd l) p)
      else Inl TypeError)"

text \<open>
  \<open>jnp.mean\<close> and \<open>np.mean\<close> return \<open>nan\<close> for an array without entries, and \<open>nan\<close>
  when an entry is \<open>nan\<close>; \<open>nan\<close> is modelled as \<open>None\<close>.
\<close>

definition mean :: "real list \<Rightarrow> real option" where
  "mean xs = (if xs = [] then None else Some (sum_list xs / real (length xs)))"

definition np_mean :: "real option list \<Rightarrow> real option" where
  "np_mean xs = (case those xs of None \<Rightarrow> None | Some ys \<Rightarrow> mean ys)"

definition accuracy :: "vec list \<Rightarrow> int list \<Rightarrow> py_error + real option" where
  "accuracy logits labels =
     (case traverse jnp_argmax logits of
        Inl e \<Rightarrow> Inl e
      | Inr predicted \<Rightarrow>
          (case jnp_equal predicted labels of
             Inl e \<Rightarrow> Inl e
           | Inr hits \<Rightarrow> Inr (mean (map (\<lambda>b. if b then 1 else 0) hits))))"

text \<open>
  \<open>eval_step\<close>: the batch is unpacked, the inputs are reshaped, the model is applied and
  the accuracy of the logits is returned.
\<close>

definition eval_step :: "params \<Rightarrow> batch \<Rightarrow> py_error + real option" where
  "eval_step ps b =
     (case b of (inputs, labels) \<Rightarrow>
        (case reshape_rows inputs of
           Inl e \<Rightarrow> Inl e
         | Inr inputs \<Rightarrow>
             (case SimpleNN_apply ps inputs of
                Inl e \<Rightarrow> Inl e
              | Inr logits \<Rightarrow> accuracy logits labels)))"

text \<open>
  The state of flax's \<open>TrainState\<close>: the step counter, the parameters and the optimizer
  state, which for \<open>optax.sgd\<close> with momentum is one trace tensor per parameter.
\<close>

record TrainState =
  step :: int
  params :: params
  opt_state :: params

text \<open>
  The evaluation cell: \<open>accuracies\<close> collects \<open>eval_step(state.params, batch)\<close> for every
  batch of the test loader and \<open>np.mean(accuracies)\<close> is printed. The state is returned
  beside the printed value.
\<close>

definition test_set_accuracy :: "TrainState \<Rightarrow> batch list \<Rightarrow> (py_error + real option) \<times> TrainState" where
  "test_set_accuracy state testloader =
     (case traverse (eval_step (params state)) testloader of
        Inl e \<Rightarrow> (Inl e, state)
      | Inr accuracies \<Rightarrow> (Inr (np_mean accuracies), state))"

definition params_ok :: "params \<Rightarrow> bool" where
  "params_ok ps =
     (has_shape 784 128 (kernel (Dense_0 ps)) \<and> length (dense_bias (Dense_0 ps)) = 128 \<and>
      has_shape 128 10 (kernel (Dense_1 ps)) \<and> length (dense_bias (Dense_1 ps)) = 10)"

definition jax_logits_of :: "params \<Rightarrow> mat \<Rightarrow> vec" where
  "jax_logits_of ps img = dense_out (Dense_1 ps) (relu (dense_out (Dense_0 ps) (concat img)))"

definition jax_hit :: "params \<Rightarrow> mat \<times> int \<Rightarrow> bool" where
  "jax_hit ps ex = (jnp_argmax (jax_logits_of ps (fst ex)) = Inr (snd ex))"

definition batch_fraction :: "params \<Rightarrow> batch \<Rightarrow> real" where
  "batch_fraction ps b =
     real (length (filter (jax_hit ps) (zip (fst b) (snd b)))) / real (length (snd b))"

definition const_params :: "vec \<Rightarrow> params" where
  "const_params b =
     \<lparr>Dense_0 = \<lparr>kernel = replicate 784 (replicate 128 0), dense_bias = replicate 128 0\<rparr>,
      Dense_1 = \<lparr>kernel = replicate 128 (replicate 10 0), dense_bias = b\<rparr>\<rparr>"

text \<open>
  A state whose network returns the logits \<open>[1, 0, \<dots>, 0]\<close> for every image, and a test
  split of 10000 examples, the first 9984 with label 0 and the last 16 with label 1: the
  loaders of the notebook cut it into 156 batches of 64 and a last batch of 16.
\<close>

definition skewed_test_data :: "(mat \<times> int) list" where
  "skewed_test_data = replicate 9984 (zero_image, 0) @ replicate 16 (zero_image, 1)"

definition state0 :: TrainState where
  "state0 = \<lparr>step = 0, params = const_params [1, 0, 0, 0, 0, 0, 0, 0, 0, 0],
             opt_state = const_params (replicate 10 0)\<rparr>"

text \<open>
  The accuracy of the specification: 100 times the number of examples that satisfy
  \<open>correct_pred\<close>, over the number of examples.
\<close>

definition spec_accuracy :: "('ex \<Rightarrow> bool) \<Rightarrow> 'ex list \<Rightarrow> real" where
  "spec_accuracy correct_pred exs = 100 * real (length (filter correct_pred exs)) / real (length exs)"

section \<open>JAX trainer: \<open>cross_entropy_loss\<close>, \<open>optax.sgd\<close> and \<open>train_step\<close>\<close>

text \<open>
  \<open>jax.nn.one_hot(labels, num_classes)\<close> gives, for every label, the row that is 1 at the
  label's index and 0 elsewhere; a label outside \<open>[0, num_classes)\<close> gives a row of zeros.
\<close>

definition one_hot :: "int list \<Rightarrow> nat \<Rightarrow> mat" where
  "one_hot labels num_classes = map (\<lambda>l. map (\<lambda>j. if l = int j then 1 else 0) [0..<num_classes]) labels"

text \<open>
  \<open>jax.nn.log_softmax\<close> along the last axis: every entry minus the row's maximum, minus
  the logarithm of the sum of the exponentials of the shifted row.
\<close>

definition log_softmax_row :: "vec \<Rightarrow> vec" where
  "log_softmax_row xs =
     (case xs of
        [] \<Rightarrow> []
      | x # rest \<Rightarrow>
          (let m = fold max rest x;
               shifted = map (\<lambda>v. v - m) xs;
               lse = ln (sum_list (map exp shifted))
           in map (\<lambda>v. v - lse) shifted))"

definition log_softmax :: "mat \<Rightarrow> mat" where
  "log_softmax logits = map log_softmax_row logits"

text \<open>
  The product of two arrays of two axes follows the broadcasting rule: along each axis the
  lengths are equal, or one of them is 1 and that entry is repeated; otherwise it raises.
\<close>

definition mul_broadcast_row :: "vec \<Rightarrow> vec \<Rightarrow> py_error + vec" where
  "mul_broadcast_row a b =
     (if length a = length b then Inr (map2 (*) a b)
      else (case b of
              [y] \<Rightarrow> Inr (map (\<lambda>x. x * y) a)
            | _ \<Rightarrow> (case a of [x] \<Rightarrow> Inr (map (\<lambda>y. x * y) b) | _ \<Rightarrow> Inl TypeError)))"

definition mul_broadcast :: "mat \<Rightarrow> mat \<Rightarrow> py_error + mat" where
  "mul_broadcast A B =
     (if length A = length B then traverse (\<lambda>p. mul_broadcast_row (fst p) (snd p)) (zip A B)
      else (case B of
              [b] \<Rightarrow> traverse (\<lambda>a. mul_broadcast_row a b) A
            | _ \<Rightarrow> (case A of [a] \<Rightarrow> traverse (\<lambda>b. mul_broadcast_row a b) B | _ \<Rightarrow> Inl TypeError)))"

definition cross_entropy_loss :: "mat \<Rightarrow> int list \<Rightarrow> py_error + real option" where
  "cross_entropy_loss logits labels =
     (let labels_onehot = one_hot labels 10 in
      case mul_broadcast labels_onehot (log_softmax logits) of
        Inl e \<Rightarrow> Inl e
      | Inr weighted \<Rightarrow> Inr (map_option uminus (mean (map sum_list weighted))))"

text \<open>
  The mean, over the examples, of the negative log-likelihood that \<open>log_softmax\<close> gives
  to each example's true class.
\<close>

definition mean_nll :: "mat \<Rightarrow> int list \<Rightarrow> real" where
  "mean_nll logits labels =
     sum_list (map2 (\<lambda>row l. - (log_softmax_row row ! nat l)) logits labels) / real (length logits)"

text \<open>\<open>jax.tree_map\<close> over the parameter dictionary: the function is applied entry by entry to the four arrays.\<close>

definition tree_map :: "(real \<Rightarrow> real) \<Rightarrow> params \<Rightarrow> params" where
  "tree_map f t =
     \<lparr>Dense_0 = \<lparr>kernel = map (map f) (kernel (Dense_0 t)), dense_bias = map f (dense_bias (Dense_0 t))\<rparr>,
      Dense_1 = \<lparr>kernel = map (map f) (kernel (Dense_1 t)), dense_bias = map f (dense_bias (Dense_1 t))\<rparr>\<rparr>"

definition tree_map2 :: "(real \<Rightarrow> real \<Rightarrow> real) \<Rightarrow> params \<Rightarrow> params \<Rightarrow> params" where
  "tree_map2 f t u =
     \<lparr>Dense_0 = \<lparr>kernel = map2 (map2 f) (kernel (Dense_0 t)) (kernel (Dense_0 u)),
                 dense_bias = map2 f (dense_bias (Dense_0 t)) (dense_bias (Dense_0 u))\<rparr>,
      Dense_1 = \<lparr>kernel = map2 (map2 f) (kernel (Dense_1 t)) (kernel (Dense_1 u)),
                 dense_bias = map2 f (dense_bias (Dense_1 t)) (dense_bias (Dense_1 u))\<rparr>\<rparr>"

text \<open>
  Modelled from the spec: \<open>optax.sgd\<close> and \<open>optax.apply_updates\<close> are library code that is
  not part of the notebook. \<open>optax.sgd(learning_rate, momentum)\<close> keeps a trace per
  parameter, initially zero; an update sets trace = gradient + momentum \<open>\<cdot>\<close> trace and
  returns \<open>- learning_rate \<cdot>\<close> trace, which \<open>apply_updates\<close> adds to the parameter. This is
  the update the specification attributes to the configured optimizer.
\<close>

definition learning_rate :: real where
  "learning_rate = 0.001"

definition decay :: real where
  "decay = 0.9"

definition tx_init :: "params \<Rightarrow> params" where
  "tx_init ps = tree_map (\<lambda>_. 0) ps"

definition tx_update :: "params \<Rightarrow> params \<Rightarrow> params \<times> params" where
  "tx_update grads trace =
     (let new_trace = tree_map2 (\<lambda>g t. g + decay * t) grads trace
      in (tree_map (\<lambda>g. (- learning_rate) * g) new_trace, new_trace))"

definition apply_updates :: "params \<Rightarrow> params \<Rightarrow> params" where
  "apply_updates ps updates = tree_map2 (\<lambda>p u. p + u) ps updates"

text \<open>\<open>TrainState.create\<close> and \<open>TrainState.apply_gradients\<close> of flax.\<close>

definition TrainState_create :: "params \<Rightarrow> TrainState" where
  "TrainState_create ps = \<lparr>step = 0, params = ps, opt_state = tx_init ps\<rparr>"

definition apply_gradients :: "TrainState \<Rightarrow> params \<Rightarrow> TrainState" where
  "apply_gradients state grads =
     (case tx_update grads (opt_state state) of
        (updates, new_opt_state) \<Rightarrow>
          \<lparr>step = step state + 1, params = apply_updates (params state) updates,
           opt_state = new_opt_state\<rparr>)"

text \<open>
  \<open>train_step\<close>. \<open>loss_fn\<close> is the inner function of the source; \<open>jax.value_and_grad\<close> is
  the framework's automatic differentiation: the value is that of \<open>loss_fn\<close>, and the
  gradient is the parameter \<open>grad\<close>, a dictionary of the parameters' structure.
  \<open>loss_fn\<close> closes over the reshaped inputs and the labels of the batch.
\<close>

definition loss_fn :: "vec list \<Rightarrow> int list \<Rightarrow> params \<Rightarrow> py_error + real option \<times> mat" where
  "loss_fn inputs labels ps =
     (case SimpleNN_apply ps inputs of
        Inl e \<Rightarrow> Inl e
      | Inr logits \<Rightarrow>
          (case cross_entropy_loss logits labels of
             Inl e \<Rightarrow> Inl e
           | Inr loss \<Rightarrow> Inr (loss, logits)))"

definition train_step ::
  "((params \<Rightarrow> py_error + real option \<times> mat) \<Rightarrow> params \<Rightarrow> params) \<Rightarrow> TrainState \<Rightarrow> batch \<Rightarrow>
     py_error + TrainState \<times> real option \<times> mat" where
  "train_step grad state b =
     (case b of (inputs, labels) \<Rightarrow>
        (case reshape_rows inputs of
           Inl e \<Rightarrow> Inl e
         | Inr inputs \<Rightarrow>
             (case loss_fn inputs labels (params state) of
                Inl e \<Rightarrow> Inl e
              | Inr (loss, logits) \<Rightarrow>
                  (let grads = grad (loss_fn inputs labels) (params state);
                       state = apply_gradients state grads
                   in Inr (state, loss, logits)))))"

definition train_jax ::
  "((params \<Rightarrow> py_error + real option \<times> mat) \<Rightarrow> params \<Rightarrow> params) \<Rightarrow> (nat \<Rightarrow> batch list) \<Rightarrow> TrainState \<Rightarrow>
     py_error + TrainState" where
  "train_jax grad trainloader state =
     run_epochs (\<lambda>s b. case train_step grad s b of Inl e \<Rightarrow> Inl e | Inr r \<Rightarrow> Inr (fst r))
       trainloader state [0..<2]"

definition tree_same_shape :: "params \<Rightarrow> params \<Rightarrow> bool" where
  "tree_same_shape t u =
     (same_shape (kernel (Dense_0 t)) (kernel (Dense_0 u)) \<and>
      length (dense_bias (Dense_0 t)) = length (dense_bias (Dense_0 u)) \<and>
      same_shape (kernel (Dense_1 t)) (kernel (Dense_1 u)) \<and>
      length (dense_bias (Dense_1 t)) = length (dense_bias (Dense_1 u)))"

text \<open>
  A concrete run for both pipelines: one batch of one image with label 0, the same loader
  in every epoch, and for the automatic differentiation a gradient that has the entries
  of the parameters.
\<close>

definition example_batch :: batch where
  "example_batch = ([zero_image], [0])"

definition example_net :: Net where
  "example_net = const_net [1, 0, 0, 0, 0, 0, 0, 0, 0, 0]"

definition example_loss_backward :: "Net \<Rightarrow> vec list \<Rightarrow> int list \<Rightarrow> py_error + Grads" where
  "example_loss_backward net outputs labels = Inr (grads_like net)"

definition example_grad :: "(params \<Rightarrow> py_error + real option \<times> mat) \<Rightarrow> params \<Rightarrow> params" where
  "example_grad f ps = ps"

section \<open>The update of one parameter tensor, and the classic momentum rule\<close>

text \<open>
  The states an optimizer goes through on a sequence of gradients: the state after every
  step, in order.
\<close>

fun trajectory :: "('s \<Rightarrow> 'g \<Rightarrow> 's) \<Rightarrow> 's \<Rightarrow> 'g list \<Rightarrow> 's list" where
  "trajectory f s [] = []"
| "trajectory f s (g # gs) = (let s' = f s g in s' # trajectory f s' gs)"

text \<open>
  What \<open>tx_update\<close> followed by \<open>apply_updates\<close> does to one array of the parameter
  dictionary, a bias (one axis) or a kernel (two axes), given as parameter and trace.
\<close>

definition optax_tensor_step :: "vec \<times> vec \<Rightarrow> vec \<Rightarrow> vec \<times> vec" where
  "optax_tensor_step pt g =
     (let new_trace = map2 (\<lambda>g t. g + decay * t) g (snd pt);
          updates = map (\<lambda>g. (- learning_rate) * g) new_trace
      in (map2 (\<lambda>p u. p + u) (fst pt) updates, new_trace))"

definition optax_tensor_step_mat :: "mat \<times> mat \<Rightarrow> mat \<Rightarrow> mat \<times> mat" where
  "optax_tensor_step_mat pt g =
     (let new_trace = map2 (map2 (\<lambda>g t. g + decay * t)) g (snd pt);
          updates = map (map (\<lambda>g. (- learning_rate) * g)) new_trace
      in (map2 (map2 (\<lambda>p u. p + u)) (fst pt) updates, new_trace))"

text \<open>
  The classic rule in the specification's words: velocity = momentum \<open>\<cdot>\<close> velocity
  \<open>-\<close> lr \<open>\<cdot>\<close> gradient; parameter \<open>+=\<close> velocity, with the velocity initially zero.
\<close>

definition classic_step :: "real \<Rightarrow> real \<Rightarrow> vec \<times> vec \<Rightarrow> vec \<Rightarrow> vec \<times> vec" where
  "classic_step a m pv g =
     (let velocity = map2 (\<lambda>v g. m * v - a * g) (snd pv) g
      in (map2 (\<lambda>p v. p + v) (fst pv) velocity, velocity))"

definition classic_step_mat :: "real \<Rightarrow> real \<Rightarrow> mat \<times> mat \<Rightarrow> mat \<Rightarrow> mat \<times> mat" where
  "classic_step_mat a m pv g =
     (let velocity = map2 (map2 (\<lambda>v g. m * v - a * g)) (snd pv) g
      in (map2 (map2 (\<lambda>p v. p + v)) (fst pv) velocity, velocity))"

definition zeros_like :: "vec \<Rightarrow> vec" where
  "zeros_like p = map (\<lambda>_. 0) p"

definition zeros_like_mat :: "mat \<Rightarrow> mat" where
  "zeros_like_mat p = map (map (\<lambda>_. 0)) p"

text \<open>
  The relations between a state of an optimizer and the state of the classic rule after the
  same gradients: the parameters agree, and the classic velocity is \<open>- lr\<close> times the
  momentum buffer or trace.
\<close>

definition torch_rel :: "real \<Rightarrow> vec \<times> vec option \<Rightarrow> vec \<times> vec \<Rightarrow> bool" where
  "torch_rel a s t =
     (fst s = fst t \<and> length (snd t) = length (fst t) \<and>
      (case snd s of None \<Rightarrow> snd t = zeros_like (fst t)
       | Some b \<Rightarrow> length b = length (fst t) \<and> snd t = map (\<lambda>x. (- a) * x) b))"

definition optax_rel :: "vec \<times> vec \<Rightarrow> vec \<times> vec \<Rightarrow> bool" where
  "optax_rel s t =
     (fst s = fst t \<and> length (snd s) = length (fst t) \<and> snd t = map (\<lambda>x. (- learning_rate) * x) (snd s))"

definition torch_rel_mat :: "real \<Rightarrow> mat \<times> mat option \<Rightarrow> mat \<times> mat \<Rightarrow> bool" where
  "torch_rel_mat a s t =
     (fst s = fst t \<and> same_shape (snd t) (fst t) \<and>
      (case snd s of None \<Rightarrow> snd t = zeros_like_mat (fst t)
       | Some b \<Rightarrow> same_shape b (fst t) \<and> snd t = map (map (\<lambda>x. (- a) * x)) b))"

definition optax_rel_mat :: "mat \<times> mat \<Rightarrow> mat \<times> mat \<Rightarrow> bool" where
  "optax_rel_mat s t =
     (fst s = fst t \<and> same_shape (snd s) (fst t) \<and>
      snd t = map (map (\<lambda>x. (- learning_rate) * x)) (snd s))"

section \<open>Visualizer: the weight grid\<close>

text \<open>
  One cell of the figure that \<open>plt.subplots(11, 12)\<close> creates: the image \<open>imshow\<close> put
  into it, if any, and whether its axis is drawn. \<open>axes.flat\<close> is the list of the cells in
  row-major order.
\<close>

record Axes =
  shown :: "mat option"
  axis_on :: bool

definition subplots :: "nat \<Rightarrow> nat \<Rightarrow> Axes list" where
  "subplots nrows ncols = replicate (nrows * ncols) \<lparr>shown = None, axis_on = True\<rparr>"

text \<open>\<open>v.reshape(r, c)\<close>: the rows of \<open>c\<close> consecutive entries; it raises unless \<open>v\<close> has \<open>r \<cdot> c\<close> entries.\<close>

definition rows_of :: "nat \<Rightarrow> nat \<Rightarrow> vec \<Rightarrow> mat" where
  "rows_of r c v = map (\<lambda>i. take c (drop (i * c) v)) [0..<r]"

definition reshape :: "nat \<Rightarrow> nat \<Rightarrow> vec \<Rightarrow> py_error + mat" where
  "reshape r c v = (if length v = r * c then Inr (rows_of r c v) else Inl ValueError)"

text \<open>
  The loop \<open>for i, ax in enumerate(axes.flat)\<close>: a cell whose index is below the number of
  weight rows shows that row as a 28 by 28 image; every cell gets \<open>ax.axis('off')\<close>.
\<close>

fun plot_loop :: "mat \<Rightarrow> nat \<Rightarrow> Axes list \<Rightarrow> py_error + Axes list" where
  "plot_loop weights i [] = Inr []"
| "plot_loop weights i (ax # rest) =
     (if i < length weights then
        (case reshape 28 28 (weights ! i) of
           Inl e \<Rightarrow> Inl e
         | Inr img \<Rightarrow>
             (case plot_loop weights (Suc i) rest of
                Inl e \<Rightarrow> Inl e
              | Inr axs \<Rightarrow> Inr (ax\<lparr>shown := Some img, axis_on := False\<rparr> # axs)))
      else
        (case plot_loop weights (Suc i) rest of
           Inl e \<Rightarrow> Inl e
         | Inr axs \<Rightarrow> Inr (ax\<lparr>axis_on := False\<rparr> # axs)))"

definition plot_weights :: "mat \<Rightarrow> py_error + Axes list" where
  "plot_weights weights = plot_loop weights 0 (subplots 11 12)"

text \<open>
  The PyTorch cell plots \<open>net.fc1.weight\<close>, the JAX cell the transposed kernel
  \<open>state.params['Dense_0']['kernel'].T\<close>.
\<close>

definition plot_torch :: "Net \<Rightarrow> py_error + Axes list" where
  "plot_torch net = plot_weights (weight (fc1 net))"

definition plot_jax :: "TrainState \<Rightarrow> py_error + Axes list" where
  "plot_jax state = plot_weights (transpose (kernel (Dense_0 (params state))))"

definition tile :: "vec \<Rightarrow> Axes" where
  "tile row = \<lparr>shown = Some (rows_of 28 28 row), axis_on = False\<rparr>"

definition blank :: Axes where
  "blank = \<lparr>shown = None, axis_on = False\<rparr>"

definition populated :: "Axes list \<Rightarrow> nat" where
  "populated axs = length (filter (\<lambda>ax. shown ax \<noteq> None) axs)"

section \<open>Data source: transforms and the batching iterator\<close>

text \<open>
  A dataset item is a grayscale picture of 8-bit pixels. A transform takes a picture or
  a tensor: \<open>ToTensor\<close> turns a picture into the tensor of its pixel values divided by
  255 and raises on a tensor; \<open>Normalize(mean, std)\<close> turns a tensor \<open>t\<close> into
  \<open>(t - mean) / std\<close>, and raises on a picture and on a zero \<open>std\<close>; \<open>Compose\<close> applies
  its transforms in order.
\<close>

datatype pic = PIL "8 word list list" | Tensor mat

datatype transform = ToTensor | Normalize real real | Compose "transform list"

definition to_tensor :: "8 word list list \<Rightarrow> mat" where
  "to_tensor p = map (map (\<lambda>v. real (unat v) / 255)) p"

fun apply_transform :: "transform \<Rightarrow> pic \<Rightarrow> py_error + pic"
  and apply_transforms :: "transform list \<Rightarrow> pic \<Rightarrow> py_error + pic" where
  "apply_transform ToTensor (PIL p) = Inr (Tensor (to_tensor p))"
| "apply_transform ToTensor (Tensor t) = Inl TypeError"
| "apply_transform (Normalize mean_v std_v) (Tensor t) =
     (if std_v = 0 then Inl ValueError
      else Inr (Tensor (map (map (\<lambda>v. (v - mean_v) / std_v)) t)))"
| "apply_transform (Normalize mean_v std_v) (PIL p) = Inl TypeError"
| "apply_transform (Compose ts) x = apply_transforms ts x"
| "apply_transforms [] x = Inr x"
| "apply_transforms (t # ts) x =
     (case apply_transform t x of Inl e \<Rightarrow> Inl e | Inr y \<Rightarrow> apply_transforms ts y)"

text \<open>
  The transforms of the notebook: the PyTorch training set and both JAX sets use
  \<open>ToTensor()\<close>; the PyTorch test set uses
  \<open>Compose([ToTensor(), Normalize((0.5,), (0.5,))])\<close>.
\<close>

definition training_transform :: transform where
  "training_transform = ToTensor"

definition test_transform :: transform where
  "test_transform = Compose [ToTensor, Normalize 0.5 0.5]"

definition jax_training_transform :: transform where
  "jax_training_transform = ToTensor"

definition jax_test_transform :: transform where
  "jax_test_transform = ToTensor"

text \<open>
  Modelled from the spec: the batching iterator \<open>torch.utils.data.DataLoader\<close> is library
  code that is not part of the notebook, which only configures it:
  \<open>DataLoader(dataset, batch_size=64, shuffle=\<dots>)\<close>. Its batch sampler walks the indices the
  sampler yields, collects them into a batch, yields the batch when it has \<open>batch_size\<close>
  indices, and at the end yields what is left unless \<open>drop_last\<close> is set, which it is not
  by default. The sampler yields the indices in order, or, with \<open>shuffle\<close>, in the order
  \<open>order\<close> it draws for the epoch, a permutation of the indices; a shuffling sampler
  over an empty dataset raises \<open>ValueError\<close>, as does a batch size of 0. Every index of
  a batch is looked up in the dataset, which raises \<open>IndexError\<close> outside its range, and
  the items found are collated.
\<close>

record ('a, 'b) DataLoader =
  dataset :: "'a list"
  batch_size :: nat
  shuffle :: bool
  drop_last :: bool
  collate_fn :: "'a list \<Rightarrow> py_error + 'b"

fun batch_sampler :: "nat \<Rightarrow> bool \<Rightarrow> nat list \<Rightarrow> nat list \<Rightarrow> nat list list" where
  "batch_sampler bsize dlast [] batch = (if 0 < length batch \<and> \<not> dlast then [batch] else [])"
| "batch_sampler bsize dlast (idx # rest) batch =
     (let batch = batch @ [idx] in
      if length batch = bsize then batch # batch_sampler bsize dlast rest []
      else batch_sampler bsize dlast rest batch)"

definition getitem :: "'a list \<Rightarrow> nat \<Rightarrow> py_error + 'a" where
  "getitem xs i = (if i < length xs then Inr (xs ! i) else Inl IndexError)"

definition DataLoader_iter :: "('a, 'b) DataLoader \<Rightarrow> nat list \<Rightarrow> py_error + 'b list" where
  "DataLoader_iter loader order =
     (if batch_size loader = 0 then Inl ValueError
      else if shuffle loader \<and> dataset loader = [] then Inl ValueError
      else
        (let idxs = (if shuffle loader then order else [0..<length (dataset loader)])
         in traverse
              (\<lambda>b. case traverse (getitem (dataset loader)) b of
                     Inl e \<Rightarrow> Inl e
                   | Inr items \<Rightarrow> collate_fn loader items)
              (batch_sampler (batch_size loader) (drop_last loader) idxs [])))"

text \<open>
  The default collate function turns a list of (image, label) items into the pair of the
  image batch and the label batch, and raises \<open>IndexError\<close> on an empty list.
  \<open>numpy_collate\<close> of the JAX cell looks at \<open>batch[0]\<close>, which raises on an empty list;
  the items are tuples, so it transposes the list and collates the images and the labels,
  each by \<open>np.array\<close>.
\<close>

definition default_collate :: "(mat \<times> int) list \<Rightarrow> py_error + batch" where
  "default_collate items =
     (case items of [] \<Rightarrow> Inl IndexError | _ \<Rightarrow> Inr (map fst items, map snd items))"

definition numpy_collate :: "(mat \<times> int) list \<Rightarrow> py_error + batch" where
  "numpy_collate items =
     (case items of [] \<Rightarrow> Inl IndexError | _ \<Rightarrow> Inr (map fst items, map snd items))"

definition prepare_dataloader :: "(mat \<times> int) list \<Rightarrow> nat \<Rightarrow> bool \<Rightarrow> (mat \<times> int, batch) DataLoader" where
  "prepare_dataloader data bsize shuf =
     \<lparr>dataset = data, batch_size = bsize, shuffle = shuf, drop_last = False, collate_fn = numpy_collate\<rparr>"

text \<open>The four loaders of the notebook, all with \<open>batch_size=64\<close>.\<close>

definition pytorch_trainloader :: "(mat \<times> int) list \<Rightarrow> (mat \<times> int, batch) DataLoader" where
  "pytorch_trainloader training_data =
     \<lparr>dataset = training_data, batch_size = 64, shuffle = True, drop_last = False,
      collate_fn = default_collate\<rparr>"

definition pytorch_test_loader :: "(mat \<times> int) list \<Rightarrow> (mat \<times> int, batch) DataLoader" where
  "pytorch_test_loader test_dataset =
     \<lparr>dataset = test_dataset, batch_size = 64, shuffle = False, drop_last = False,
      collate_fn = default_collate\<rparr>"

definition jax_trainloader :: "(mat \<times> int) list \<Rightarrow> (mat \<times> int, batch) DataLoader" where
  "jax_trainloader training_data = prepare_dataloader training_data 64 True"

definition jax_testloader :: "(mat \<times> int) list \<Rightarrow> (mat \<times> int, batch) DataLoader" where
  "jax_testloader test_data = prepare_dataloader test_data 64 False"

text \<open>The sizes of the batches of a loader's epoch: the number of labels of each.\<close>

definition batch_sizes :: "batch list \<Rightarrow> nat list" where
  "batch_sizes bs = map (\<lambda>b. length (snd b)) bs"

text \<open>
  The indices a loader's sampler yields in an epoch, their batches, and the batches of
  items after collation.
\<close>

definition sampled :: "('a, 'b) DataLoader \<Rightarrow> nat list \<Rightarrow> nat list" where
  "sampled loader order = (if shuffle loader then order else [0..<length (dataset loader)])"

definition index_batches :: "('a, 'b) DataLoader \<Rightarrow> nat list \<Rightarrow> nat list list" where
  "index_batches loader order =
     batch_sampler (batch_size loader) (drop_last loader) (sampled loader order) []"

definition collated :: "(mat \<times> int, batch) DataLoader \<Rightarrow> nat list \<Rightarrow> batch list" where
  "collated loader order =
     map (\<lambda>b. (map (\<lambda>i. fst (dataset loader ! i)) b, map (\<lambda>i. snd (dataset loader ! i)) b))
       (index_batches loader order)"

section \<open>Verification\<close>

subsection \<open>The forward pass and the evaluation loop\<close>

lemma traverse_all_Inr:
  "list_all (\<lambda>x. f x = Inr (g x)) xs \<Longrightarrow> traverse f xs = Inr (map g xs)"
  by (induction xs) auto

lemma argmax_nonempty: "xs \<noteq> [] \<Longrightarrow> argmax xs = Inr (int (first_max xs))"
  by (cases xs) (auto simp: argmax_def first_max_def)

lemma linear_ok:
  "has_shape r c (weight l) \<Longrightarrow> length (bias l) = r \<Longrightarrow> length x = c \<Longrightarrow>
   linear_forward l x = Inr (linear_out l x)"
  by (simp add: linear_forward_def has_shape_def)

lemma length_linear_out:
  "length (bias l) = length (weight l) \<Longrightarrow> length (linear_out l x) = length (weight l)"
  by (simp add: linear_out_def)

lemma forward_ok:
  assumes "net_ok net" "list_all image_ok images"
  shows "forward net images = Inr (map (logits_of net) images)"
proof -
  have sh1: "has_shape 128 784 (weight (fc1 net))" "length (bias (fc1 net)) = 128"
    and sh2: "has_shape 10 128 (weight (fc2 net))" "length (bias (fc2 net)) = 10"
    using assms(1) by (simp_all add: net_ok_def)
  have l1: "length (weight (fc1 net)) = 128" using sh1 by (simp add: has_shape_def)
  have a: "list_all (\<lambda>x. linear_forward (fc1 net) x = Inr (linear_out (fc1 net) x)) (flatten images)"
    using assms(2) sh1
    by (auto simp: flatten_def list_all_iff image_ok_def intro: linear_ok)
  have b: "list_all (\<lambda>h. linear_forward (fc2 net) h = Inr (linear_out (fc2 net) h))
              (map relu (map (linear_out (fc1 net)) (flatten images)))"
    using sh1 sh2 l1
    by (auto simp: list_all_iff relu_def length_linear_out intro!: linear_ok)
  show ?thesis
    unfolding forward_def Let_def traverse_all_Inr[OF a] sum.case traverse_all_Inr[OF b]
    by (simp add: flatten_def logits_of_def)
qed

lemma logits_nonempty: "net_ok net \<Longrightarrow> length (logits_of net img) = 10"
  by (simp add: logits_of_def net_ok_def has_shape_def length_linear_out)

lemma count_true_map2:
  "count_true (map2 (=) (map f xs) ys) = int (length (filter (\<lambda>p. f (fst p) = snd p) (zip xs ys)))"
proof -
  have "map2 (=) (map f xs) ys = map (\<lambda>p. f (fst p) = snd p) (zip xs ys)"
    by (simp add: zip_map1 case_prod_beta)
  then show ?thesis
    by (simp add: count_true_def filter_map comp_def)
qed

lemma eq_broadcast_same: "length p = length l \<Longrightarrow> eq_broadcast p l = Inr (map2 (=) p l)"
  by (simp add: eq_broadcast_def)

lemma eval_batch:
  assumes "net_ok net" "batch_ok (images, labels)"
  shows "forward net images = Inr (map (logits_of net) images)"
    and "traverse argmax (map (logits_of net) images) =
           Inr (map (\<lambda>img. int (first_max (logits_of net img))) images)"
    and "eq_broadcast (map (\<lambda>img. int (first_max (logits_of net img))) images) labels =
           Inr (map2 (=) (map (\<lambda>img. int (first_max (logits_of net img))) images) labels)"
    and "count_true (map2 (=) (map (\<lambda>img. int (first_max (logits_of net img))) images) labels) =
           int (length (filter (hit net) (zip images labels)))"
proof -
  show "forward net images = Inr (map (logits_of net) images)"
    using assms by (simp add: forward_ok batch_ok_def)
  have ne: "logits_of net img \<noteq> []" for img
    using logits_nonempty[OF assms(1), of img] by auto
  have "list_all (\<lambda>r. argmax r = Inr (int (first_max r))) (map (logits_of net) images)"
    by (simp add: list_all_iff argmax_nonempty ne)
  from traverse_all_Inr[OF this]
  show "traverse argmax (map (logits_of net) images) =
           Inr (map (\<lambda>img. int (first_max (logits_of net img))) images)"
    by (simp add: comp_def)
  show "eq_broadcast (map (\<lambda>img. int (first_max (logits_of net img))) images) labels =
           Inr (map2 (=) (map (\<lambda>img. int (first_max (logits_of net img))) images) labels)"
    using assms(2) by (simp add: eq_broadcast_same batch_ok_def)
  have "(\<lambda>p. int (first_max (logits_of net (fst p))) = snd p) = hit net"
    by (auto simp: hit_def argmax_nonempty ne fun_eq_iff)
  then show "count_true (map2 (=) (map (\<lambda>img. int (first_max (logits_of net img))) images) labels) =
           int (length (filter (hit net) (zip images labels)))"
    by (simp add: count_true_map2)
qed

lemma eval_loop_counts:
  "net_ok net \<Longrightarrow> list_all batch_ok dl \<Longrightarrow>
   eval_loop net dl c t =
     Inr (c + int (length (filter (hit net) (examples dl))), t + int (length (examples dl)))"
proof (induction dl arbitrary: c t)
  case Nil
  then show ?case by (simp add: examples_def)
next
  case (Cons b dl)
  obtain images labels where b: "b = (images, labels)" by (cases b)
  have ok: "batch_ok (images, labels)" and rest: "list_all batch_ok dl"
    using Cons.prems(2) b by simp_all
  have len: "length labels = length images" using ok by (simp add: batch_ok_def)
  note eb = eval_batch[OF Cons.prems(1) ok]
  show ?case
    unfolding b eval_loop.simps eb sum.case Let_def
    by (simp add: Cons.IH[OF Cons.prems(1) rest] examples_def len)
qed

lemma net_ok_eval_mode: "net_ok (net\<lparr>training := False\<rparr>) = net_ok net"
  by (simp add: net_ok_def)

lemma hit_eval_mode: "hit (net\<lparr>training := False\<rparr>) = hit net"
  by (simp add: hit_def logits_of_def fun_eq_iff)

lemma evaluate_model_value:
  assumes "net_ok net" "list_all batch_ok dl" "examples dl \<noteq> []"
  shows "fst (evaluate_model net dl) =
           Inr (100 * real (length (filter (hit net) (examples dl))) / real (length (examples dl)))"
proof -
  have ok: "net_ok (net\<lparr>training := False\<rparr>)" using assms(1) by (simp add: net_ok_eval_mode)
  have pos: "length (examples dl) \<noteq> 0" using assms(3) by simp
  show ?thesis
    unfolding evaluate_model_def Let_def eval_loop_counts[OF ok assms(2)] sum.case prod.case
    using pos by (simp add: hit_eval_mode)
qed

lemma net_ok_const_net: "length b = 10 \<Longrightarrow> net_ok (const_net b)"
  by (simp add: net_ok_def const_net_def has_shape_def list_all_iff)

lemma image_ok_zero_image: "image_ok zero_image"
  by (simp add: image_ok_def zero_image_def length_concat sum_list_replicate)

lemma snd_evaluate_model: "snd (evaluate_model net dl) = net\<lparr>training := False\<rparr>"
  by (simp add: evaluate_model_def Let_def split: sum.split prod.split)

subsection \<open>The flax forward pass and \<open>eval_step\<close>\<close>

lemma length_dense_fold:
  "list_all (\<lambda>row. length row = length acc) rows \<Longrightarrow>
   length (foldl (\<lambda>acc p. map2 (+) acc (map ((*) (fst p)) (snd p))) acc (zip x rows)) = length acc"
proof (induction rows arbitrary: acc x)
  case Nil
  then show ?case by simp
next
  case (Cons r rows)
  show ?case
  proof (cases x)
    case Nil
    then show ?thesis by simp
  next
    case (Cons a x')
    have la: "length (map2 (+) acc (map ((*) a) r)) = length acc"
      using Cons.prems by simp
    have "list_all (\<lambda>row. length row = length (map2 (+) acc (map ((*) a) r))) rows"
      using Cons.prems la by simp
    from Cons.IH[OF this, of x'] show ?thesis
      using Cons la by simp
  qed
qed

lemma length_dense_out:
  "has_shape r c (kernel d) \<Longrightarrow> length (dense_bias d) = c \<Longrightarrow> length (dense_out d x) = c"
  unfolding dense_out_def has_shape_def
  using length_dense_fold[of "dense_bias d" "kernel d" x] by simp

lemma dense_ok:
  "has_shape r c (kernel d) \<Longrightarrow> length (dense_bias d) = c \<Longrightarrow> length x = r \<Longrightarrow>
   dense_apply c d x = Inr (dense_out d x)"
  by (simp add: dense_apply_def)

lemma jnp_argmax_nonempty: "xs \<noteq> [] \<Longrightarrow> jnp_argmax xs = Inr (int (first_max xs))"
  by (cases xs) (auto simp: jnp_argmax_def first_max_def)

lemma jnp_equal_same: "length p = length l \<Longrightarrow> jnp_equal p l = Inr (map2 (=) p l)"
  by (simp add: jnp_equal_def)

lemma SimpleNN_apply_ok:
  assumes "params_ok ps" "list_all image_ok images" "images \<noteq> []"
  shows "SimpleNN_apply ps (flatten images) = Inr (map (jax_logits_of ps) images)"
proof -
  have fne: "flatten images \<noteq> []" using assms(3) by (simp add: flatten_def)
  have sh1: "has_shape 784 128 (kernel (Dense_0 ps))" "length (dense_bias (Dense_0 ps)) = 128"
    and sh2: "has_shape 128 10 (kernel (Dense_1 ps))" "length (dense_bias (Dense_1 ps)) = 10"
    using assms(1) by (simp_all add: params_ok_def)
  have a: "list_all (\<lambda>x. dense_apply 128 (Dense_0 ps) x = Inr (dense_out (Dense_0 ps) x))
             (flatten images)"
    using assms(2) sh1
    by (auto simp: flatten_def list_all_iff image_ok_def intro: dense_ok)
  have b: "list_all (\<lambda>h. dense_apply 10 (Dense_1 ps) h = Inr (dense_out (Dense_1 ps) h))
              (map relu (map (dense_out (Dense_0 ps)) (flatten images)))"
    using sh1 sh2
    by (auto simp: list_all_iff relu_def length_dense_out[OF sh1] intro!: dense_ok)
  have "SimpleNN_apply ps (flatten images) =
          (case traverse (dense_apply 128 (Dense_0 ps)) (flatten images) of
             Inl e \<Rightarrow> Inl e
           | Inr h \<Rightarrow> traverse (dense_apply 10 (Dense_1 ps)) (map relu h))"
    using fne by (simp add: SimpleNN_apply_def)
  then show ?thesis
    unfolding traverse_all_Inr[OF a] sum.case traverse_all_Inr[OF b]
    by (simp add: flatten_def jax_logits_of_def)
qed

lemma jax_logits_length: "params_ok ps \<Longrightarrow> length (jax_logits_of ps img) = 10"
  unfolding jax_logits_of_def params_ok_def
  using length_dense_out[of 128 10 "Dense_1 ps"] by blast

lemma sum_list_indicator:
  "sum_list (map (\<lambda>b. if b then 1 else 0) bs) = real (length (filter id bs))"
  by (induction bs) auto

lemma eval_step_value:
  assumes "params_ok ps" "batch_ok b" "fst b \<noteq> []"
  shows "eval_step ps b = Inr (Some (batch_fraction ps b))"
proof -
  obtain images labels where b: "b = (images, labels)" by (cases b)
  have imgs: "list_all image_ok images" and len: "length labels = length images"
    using assms(2) b by (simp_all add: batch_ok_def)
  have ne: "jax_logits_of ps img \<noteq> []" for img
    using jax_logits_length[OF assms(1), of img] by auto
  have ine: "images \<noteq> []" using assms(3) b by simp
  have rs: "reshape_rows images = Inr (flatten images)"
    using ine by (simp add: reshape_rows_def)
  have "list_all (\<lambda>r. jnp_argmax r = Inr (int (first_max r))) (map (jax_logits_of ps) images)"
    by (simp add: list_all_iff jnp_argmax_nonempty ne)
  from traverse_all_Inr[OF this]
  have am: "traverse jnp_argmax (map (jax_logits_of ps) images) =
           Inr (map (\<lambda>img. int (first_max (jax_logits_of ps img))) images)"
    by (simp add: comp_def)
  have eq: "jnp_equal (map (\<lambda>img. int (first_max (jax_logits_of ps img))) images) labels =
           Inr (map2 (=) (map (\<lambda>img. int (first_max (jax_logits_of ps img))) images) labels)"
    using len by (simp add: jnp_equal_same)
  have "(\<lambda>p. int (first_max (jax_logits_of ps (fst p))) = snd p) = jax_hit ps"
    by (auto simp: jax_hit_def jnp_argmax_nonempty ne fun_eq_iff)
  then have cnt: "count_true (map2 (=) (map (\<lambda>img. int (first_max (jax_logits_of ps img))) images) labels) =
           int (length (filter (jax_hit ps) (zip images labels)))"
    by (simp add: count_true_map2)
  have nonempty: "map2 (=) (map (\<lambda>img. int (first_max (jax_logits_of ps img))) images) labels \<noteq> []"
    using assms(3) b len by (cases images; cases labels) simp_all
  have lenh: "length (map2 (=) (map (\<lambda>img. int (first_max (jax_logits_of ps img))) images) labels) = length labels"
    using len by simp
  have cnt': "real (length (filter id (map2 (=) (map (\<lambda>img. int (first_max (jax_logits_of ps img))) images) labels))) =
            real (length (filter (jax_hit ps) (zip images labels)))"
    using cnt by (simp add: count_true_def)
  show ?thesis
    unfolding b eval_step_def prod.case rs sum.case SimpleNN_apply_ok[OF assms(1) imgs ine]
      accuracy_def am eq mean_def sum_list_indicator cnt' lenh
    using nonempty len by (simp add: batch_fraction_def)
qed

lemma those_map_Some: "those (map Some xs) = Some xs"
  by (induction xs) auto

lemma test_set_accuracy_value:
  assumes "params_ok (params state)" "list_all batch_ok dl" "list_all (\<lambda>b. fst b \<noteq> []) dl" "dl \<noteq> []"
  shows "fst (test_set_accuracy state dl) =
           Inr (Some (sum_list (map (batch_fraction (params state)) dl) / real (length dl)))"
proof -
  have "list_all (\<lambda>b. eval_step (params state) b = Inr (Some (batch_fraction (params state) b))) dl"
    using assms(1,2,3) by (auto simp: list_all_iff intro: eval_step_value)
  from traverse_all_Inr[OF this]
  have t: "traverse (eval_step (params state)) dl =
             Inr (map (\<lambda>b. Some (batch_fraction (params state) b)) dl)" .
  have m: "map (\<lambda>b. Some (batch_fraction (params state) b)) dl = map Some (map (batch_fraction (params state)) dl)"
    by simp
  show ?thesis
    unfolding test_set_accuracy_def t sum.case np_mean_def m those_map_Some
    using assms(4) by (simp add: mean_def)
qed

lemma dense_fold_zero:
  "length (acc :: vec) = m \<Longrightarrow>
   foldl (\<lambda>acc p. map2 (+) acc (map ((*) (fst p)) (snd p))) acc (zip x (replicate n (replicate m 0))) = acc"
proof (induction n arbitrary: x)
  case 0
  then show ?case by simp
next
  case (Suc n)
  show ?case
  proof (cases x)
    case Nil
    then show ?thesis by simp
  next
    case (Cons a x')
    have "map2 (+) acc (map ((*) a) (replicate m 0)) = acc"
      using Suc.prems by (simp add: list_eq_iff_nth_eq)
    then show ?thesis using Cons Suc by simp
  qed
qed

lemma jax_logits_const: "length b = 10 \<Longrightarrow> jax_logits_of (const_params b) img = b"
  by (simp add: jax_logits_of_def const_params_def dense_out_def dense_fold_zero)

lemma params_ok_const: "length b = 10 \<Longrightarrow> params_ok (const_params b)"
  by (simp add: params_ok_def const_params_def has_shape_def list_all_iff)

lemma argmax_first: "argmax [1, 0, 0, 0, 0, 0, 0, 0, 0, 0] = Inr 0"
  by (simp add: argmax_def)

lemma jnp_argmax_first: "jnp_argmax [1, 0, 0, 0, 0, 0, 0, 0, 0, 0] = Inr 0"
  by (simp add: jnp_argmax_def)

lemma jax_hit_const:
  "jax_hit (const_params [1, 0, 0, 0, 0, 0, 0, 0, 0, 0]) (img, l) = (l = 0)"
  by (auto simp add: jax_hit_def jax_logits_const jnp_argmax_first)

lemma examples_equal_size:
  "list_all batch_ok dl \<Longrightarrow> list_all (\<lambda>b. length (fst b) = n) dl \<Longrightarrow>
   length (examples dl) = n * length dl \<and>
   real (length (filter P (examples dl))) =
     sum_list (map (\<lambda>b. real (length (filter P (zip (fst b) (snd b))))) dl)"
proof (induction dl)
  case Nil
  then show ?case by (simp add: examples_def)
next
  case (Cons b dl)
  then have IH: "length (examples dl) = n * length dl"
     "real (length (filter P (examples dl))) =
        sum_list (map (\<lambda>b. real (length (filter P (zip (fst b) (snd b))))) dl)"
    by simp_all
  have ex: "examples (b # dl) = zip (fst b) (snd b) @ examples dl"
    by (simp add: examples_def)
  have len: "length (zip (fst b) (snd b)) = n"
    using Cons.prems by (simp add: batch_ok_def)
  show ?case unfolding ex using IH len by simp
qed

lemma batch_fraction_equal_size:
  assumes "list_all batch_ok dl" "list_all (\<lambda>b. length (fst b) = n) dl" "0 < n" "dl \<noteq> []"
  shows "sum_list (map (batch_fraction ps) dl) / real (length dl) =
         real (length (filter (jax_hit ps) (examples dl))) / real (length (examples dl))"
proof -
  have fr: "map (batch_fraction ps) dl =
            map (\<lambda>b. real (length (filter (jax_hit ps) (zip (fst b) (snd b)))) / real n) dl"
    using assms(1,2) by (induction dl) (simp_all add: batch_fraction_def batch_ok_def)
  have s: "sum_list (map (\<lambda>b. real (length (filter (jax_hit ps) (zip (fst b) (snd b)))) / real n) dl)
           = sum_list (map (\<lambda>b. real (length (filter (jax_hit ps) (zip (fst b) (snd b))))) dl) / real n"
    by (induction dl) (simp_all add: add_divide_distrib)
  note e = examples_equal_size[OF assms(1,2), of "jax_hit ps"]
  show ?thesis
    unfolding fr s using e assms(3,4) by (simp add: field_simps)
qed

subsection \<open>The cross-entropy loss\<close>

lemma length_log_softmax_row: "length (log_softmax_row xs) = length xs"
  by (cases xs) (simp_all add: log_softmax_row_def Let_def)

lemma one_hot_row_dot:
  assumes "0 \<le> l" "l < int n" "length r = n"
  shows "sum_list (map2 (*) (map (\<lambda>j. if l = int j then 1 else 0) [0..<n]) r) = (r ! nat l :: real)"
proof -
  have z: "map2 (*) (map (\<lambda>j. if l = int j then 1 else 0) [0..<n]) r =
           map (\<lambda>j. if j = nat l then r ! j else 0) [0..<n]"
    using assms by (auto simp: list_eq_iff_nth_eq)
  have "sum_list (map (\<lambda>j. if j = nat l then r ! j else 0) [0..<n]) =
        (\<Sum>j\<in>{0..<n}. if j = nat l then r ! j else 0)"
    by (simp add: interv_sum_list_conv_sum_set_nat)
  also have "\<dots> = r ! nat l"
  proof -
    have "nat l < n" using assms by linarith
    then show ?thesis by (simp add: sum.delta')
  qed
  finally show ?thesis using z by simp
qed

lemma mul_broadcast_same:
  assumes "length A = length B" "list_all (\<lambda>p. length (fst p) = length (snd p)) (zip A B)"
  shows "mul_broadcast A B = Inr (map (\<lambda>p. map2 (*) (fst p) (snd p)) (zip A B))"
proof -
  have "list_all (\<lambda>p. mul_broadcast_row (fst p) (snd p) = Inr (map2 (*) (fst p) (snd p))) (zip A B)"
    using assms(2) by (auto simp: list_all_iff mul_broadcast_row_def)
  from traverse_all_Inr[OF this] show ?thesis
    using assms(1) by (simp add: mul_broadcast_def)
qed

lemma cross_entropy_loss_value:
  assumes "list_all (\<lambda>row. length row = 10) logits"
      and "length labels = length logits"
      and "list_all (\<lambda>l. 0 \<le> l \<and> l \<le> 9) labels"
      and "logits \<noteq> []"
  shows "cross_entropy_loss logits labels = Inr (Some (mean_nll logits labels))"
proof -
  let ?oh = "one_hot labels 10"
  let ?ls = "log_softmax logits"
  have len: "length ?oh = length ?ls"
    using assms(2) by (simp add: one_hot_def log_softmax_def)
  have rows: "list_all (\<lambda>p. length (fst p) = length (snd p)) (zip ?oh ?ls)"
    using assms(1)
    by (auto simp: list_all_iff one_hot_def log_softmax_def length_log_softmax_row set_zip)
  have prod: "mul_broadcast ?oh ?ls = Inr (map (\<lambda>p. map2 (*) (fst p) (snd p)) (zip ?oh ?ls))"
    using mul_broadcast_same[OF len rows] .
  have sums: "map sum_list (map (\<lambda>p. map2 (*) (fst p) (snd p)) (zip ?oh ?ls)) =
              map2 (\<lambda>row l. log_softmax_row row ! nat l) logits labels"
    using assms(1,2,3)
  proof (induction logits arbitrary: labels)
    case Nil
    then show ?case by (simp add: one_hot_def log_softmax_def)
  next
    case (Cons row logits)
    then obtain l ls where lab: "labels = l # ls" by (cases labels) auto
    have l: "0 \<le> l" "l < int 10" using Cons.prems(3) lab by auto
    have r: "length (log_softmax_row row) = 10"
      using Cons.prems(1) by (simp add: length_log_softmax_row)
    have hd: "sum_list (map2 (*) (map (\<lambda>j. if l = int j then 1 else 0) [0..<10]) (log_softmax_row row)) =
              log_softmax_row row ! nat l"
      by (rule one_hot_row_dot[OF l r])
    have tl: "map sum_list (map (\<lambda>p. map2 (*) (fst p) (snd p)) (zip (one_hot ls 10) (log_softmax logits))) =
              map2 (\<lambda>row l. log_softmax_row row ! nat l) logits ls"
      using Cons.IH[of ls] Cons.prems lab by simp
    show ?case
      using hd tl unfolding lab by (simp add: one_hot_def log_softmax_def)
  qed
  have ne: "map2 (\<lambda>row l. log_softmax_row row ! nat l) logits labels \<noteq> []"
    using assms(2,4) by (cases logits; cases labels) simp_all
  have l2: "length (map2 (\<lambda>row l. log_softmax_row row ! nat l) logits labels) = length logits"
    using assms(2) by simp
  have neg: "- sum_list (map2 (\<lambda>row l. log_softmax_row row ! nat l) logits labels) =
             sum_list (map2 (\<lambda>row l. - (log_softmax_row row ! nat l)) logits labels)"
    by (induction logits labels rule: list_induct2') simp_all
  show ?thesis
    unfolding cross_entropy_loss_def Let_def prod sum.case sums mean_def
    using ne l2 by (simp add: mean_nll_def neg[symmetric])
qed

lemma mean_nll_uniform: "mean_nll [[0, 0, 0, 0, 0, 0, 0, 0, 0, 0]] [3] = ln 10"
  by (simp add: mean_nll_def log_softmax_row_def Let_def eval_nat_numeral)

subsection \<open>Shapes under the optimizer steps\<close>

lemma same_shape_refl: "same_shape a a"
  by (simp add: same_shape_def)

lemma same_shape_sym: "same_shape a b \<Longrightarrow> same_shape b a"
  by (simp add: same_shape_def)

lemma same_shape_trans: "same_shape a b \<Longrightarrow> same_shape b c \<Longrightarrow> same_shape a c"
  by (simp add: same_shape_def)

lemma same_shape_map2:
  "same_shape a b \<Longrightarrow> same_shape (map2 (map2 f) a b) b"
proof (induction a arbitrary: b)
  case Nil
  then show ?case by (simp add: same_shape_def)
next
  case (Cons r a)
  then show ?case by (cases b) (auto simp: same_shape_def)
qed

lemma same_shape_map: "same_shape (map (map f) a) a"
  by (simp add: same_shape_def comp_def)

lemma same_shapeD:
  assumes "same_shape a b"
  shows "length a = length b" and "i < length a \<Longrightarrow> length (a ! i) = length (b ! i)"
proof -
  have m: "map length a = map length b" using assms by (simp add: same_shape_def)
  show l: "length a = length b" using m by (rule map_eq_imp_length_eq)
  assume i: "i < length a"
  have "length (a ! i) = map length a ! i" using i by simp
  also have "\<dots> = map length b ! i" using m by simp
  also have "\<dots> = length (b ! i)" using i l by simp
  finally show "length (a ! i) = length (b ! i)" .
qed

lemma has_shape_same:
  "same_shape a b \<Longrightarrow> has_shape r c a = has_shape r c b"
  using same_shapeD[of a b]
  by (auto simp: has_shape_def list_all_length)

lemma sgd_single_tensor_shape:
  assumes "length g = length p" "buf_ok p buf"
  shows "length (fst (sgd_single_tensor a m (p, buf) g)) = length p"
    and "buf_ok (fst (sgd_single_tensor a m (p, buf) g)) (snd (sgd_single_tensor a m (p, buf) g))"
  using assms
  by (auto simp: sgd_single_tensor_def sgd_buffer_def buf_ok_def Let_def split: option.splits)

lemma sgd_buffer_mat_shape:
  assumes "same_shape g p" "buf_ok_mat p buf"
  shows "same_shape (sgd_buffer_mat m buf g) p"
proof (cases buf)
  case None
  then show ?thesis using assms by (simp add: sgd_buffer_mat_def)
next
  case (Some b)
  then have "same_shape b g" using assms
    by (simp add: buf_ok_mat_def same_shape_def)
  from same_shape_map2[OF this] have "same_shape (map2 (map2 (\<lambda>b g. m * b + g)) b g) g" .
  then show ?thesis using Some assms(1) by (simp add: sgd_buffer_mat_def same_shape_def)
qed

lemma sgd_single_tensor_mat_shape:
  assumes "same_shape g p" "buf_ok_mat p buf"
  shows "same_shape (fst (sgd_single_tensor_mat a m (p, buf) g)) p"
    and "buf_ok_mat (fst (sgd_single_tensor_mat a m (p, buf) g)) (snd (sgd_single_tensor_mat a m (p, buf) g))"
proof -
  let ?b = "sgd_buffer_mat m buf g"
  have b: "same_shape ?b p" using assms by (rule sgd_buffer_mat_shape)
  have "same_shape p ?b" using b by (rule same_shape_sym)
  from same_shape_map2[OF this]
  have pb: "same_shape (map2 (map2 (\<lambda>p b. p + (- a) * b)) p ?b) ?b" .
  show "same_shape (fst (sgd_single_tensor_mat a m (p, buf) g)) p"
    using pb b by (simp add: sgd_single_tensor_mat_def Let_def same_shape_def)
  show "buf_ok_mat (fst (sgd_single_tensor_mat a m (p, buf) g)) (snd (sgd_single_tensor_mat a m (p, buf) g))"
    using pb by (simp add: sgd_single_tensor_mat_def Let_def buf_ok_mat_def same_shape_def)
qed

lemma optimizer_step_shapes:
  assumes "grads_ok net g" "optimizer_ok net optimizer"
  shows "same_shapes net (fst (optimizer_step optimizer net g))"
    and "optimizer_ok (fst (optimizer_step optimizer net g)) (snd (optimizer_step optimizer net g))"
  using assms
  by (simp_all add: optimizer_step_def Let_def same_shapes_def optimizer_ok_def grads_ok_def
        sgd_single_tensor_shape sgd_single_tensor_mat_shape)

lemma net_ok_same_shapes: "same_shapes net net' \<Longrightarrow> net_ok net' = net_ok net"
  unfolding same_shapes_def net_ok_def
  using has_shape_same[of "weight (fc1 net')" "weight (fc1 net)"]
        has_shape_same[of "weight (fc2 net')" "weight (fc2 net)"] by auto

lemma tree_map2_shape:
  "tree_same_shape t u \<Longrightarrow> tree_same_shape (tree_map2 f t u) u"
  by (simp add: tree_same_shape_def tree_map2_def same_shape_map2)

lemma tree_map_shape: "tree_same_shape (tree_map f t) t"
  by (simp add: tree_same_shape_def tree_map_def same_shape_map)

lemma tree_same_shape_sym: "tree_same_shape t u \<Longrightarrow> tree_same_shape u t"
  by (simp add: tree_same_shape_def same_shape_def)

lemma tree_same_shape_trans: "tree_same_shape t u \<Longrightarrow> tree_same_shape u v \<Longrightarrow> tree_same_shape t v"
  by (simp add: tree_same_shape_def same_shape_def)

lemma apply_gradients_shapes:
  assumes "tree_same_shape grads (params state)" "tree_same_shape (opt_state state) (params state)"
  shows "tree_same_shape (params (apply_gradients state grads)) (params state)"
    and "tree_same_shape (opt_state (apply_gradients state grads)) (params (apply_gradients state grads))"
    and "step (apply_gradients state grads) = step state + 1"
proof -
  let ?nt = "tree_map2 (\<lambda>g t. g + decay * t) grads (opt_state state)"
  let ?u = "tree_map (\<lambda>g. (- learning_rate) * g) ?nt"
  have gt: "tree_same_shape grads (opt_state state)"
    by (rule tree_same_shape_trans[OF assms(1) tree_same_shape_sym[OF assms(2)]])
  have nt: "tree_same_shape ?nt (params state)"
    by (rule tree_same_shape_trans[OF tree_map2_shape[OF gt] tree_same_shape_trans[OF tree_same_shape_sym[OF gt] assms(1)]])
  have u: "tree_same_shape ?u (params state)"
    by (rule tree_same_shape_trans[OF tree_map_shape nt])
  have p: "tree_same_shape (tree_map2 (\<lambda>p u. p + u) (params state) ?u) (params state)"
    by (rule tree_same_shape_trans[OF tree_map2_shape[OF tree_same_shape_sym[OF u]] u])
  have ag: "apply_gradients state grads =
      \<lparr>step = step state + 1, params = tree_map2 (\<lambda>p u. p + u) (params state) ?u, opt_state = ?nt\<rparr>"
    by (simp add: apply_gradients_def tx_update_def Let_def apply_updates_def)
  show "tree_same_shape (params (apply_gradients state grads)) (params state)"
    using p by (simp add: ag)
  show "tree_same_shape (opt_state (apply_gradients state grads)) (params (apply_gradients state grads))"
    using tree_same_shape_trans[OF nt tree_same_shape_sym[OF p]] by (simp add: ag)
  show "step (apply_gradients state grads) = step state + 1"
    by (simp add: ag)
qed

lemma params_ok_same_shape: "tree_same_shape t u \<Longrightarrow> params_ok t = params_ok u"
  unfolding tree_same_shape_def params_ok_def
  using has_shape_same[of "kernel (Dense_0 t)" "kernel (Dense_0 u)"]
        has_shape_same[of "kernel (Dense_1 t)" "kernel (Dense_1 u)"] by auto

lemma grads_ok_like: "grads_ok net (grads_like net)"
  by (simp add: grads_ok_def grads_like_def same_shape_def)

lemma optimizer_ok_init: "optimizer_ok net SGD_init"
  by (simp add: optimizer_ok_def SGD_init_def buf_ok_def buf_ok_mat_def)

lemma tx_init_shape: "tree_same_shape (tx_init ps) ps"
  by (simp add: tx_init_def tree_map_shape)

lemma training_step_shapes:
  assumes "training_step loss_backward (net, optimizer) b = Inr (net', optimizer')"
      and "\<And>outputs g. loss_backward net outputs (snd b) = Inr g \<Longrightarrow> grads_ok net g"
      and "optimizer_ok net optimizer"
  shows "same_shapes net net' \<and> optimizer_ok net' optimizer'"
proof -
  obtain inputs labels where b: "b = (inputs, labels)" by (cases b)
  from assms(1) obtain outputs g where
    g: "loss_backward net outputs labels = Inr g" and
    r: "(net', optimizer') = optimizer_step optimizer net g"
    unfolding b training_step_def by (auto split: sum.splits)
  have ok: "grads_ok net g" using assms(2)[of outputs g] g b by simp
  from optimizer_step_shapes[OF ok assms(3)] r[symmetric] show ?thesis by simp
qed

lemma train_step_shapes:
  assumes "train_step grad state b = Inr (state', loss, logits)"
      and "tree_same_shape (grad (loss_fn (flatten (fst b)) (snd b)) (params state)) (params state)"
      and "tree_same_shape (opt_state state) (params state)"
  shows "tree_same_shape (params state') (params state) \<and>
         tree_same_shape (opt_state state') (params state') \<and> step state' = step state + 1"
proof -
  obtain inputs labels where b: "b = (inputs, labels)" by (cases b)
  from assms(1) have s: "state' = apply_gradients state (grad (loss_fn (flatten inputs) labels) (params state))"
    unfolding b train_step_def reshape_rows_def
    by (auto simp: Let_def split: sum.splits prod.splits if_splits)
  from apply_gradients_shapes[OF assms(2,3)] show ?thesis
    unfolding s b by simp
qed

lemma training_step_ok:
  assumes "net_ok net" "list_all image_ok inputs"
      and "loss_backward net (map (logits_of net) inputs) labels = Inr g"
  shows "training_step loss_backward (net, optimizer) (inputs, labels) = Inr (optimizer_step optimizer net g)"
  by (simp add: training_step_def forward_ok[OF assms(1,2)] assms(3))

lemma train_step_ok:
  assumes "params_ok (params state)" "batch_ok (inputs, labels)" "inputs \<noteq> []"
      and "list_all (\<lambda>l. 0 \<le> l \<and> l \<le> 9) labels"
  shows "train_step grad state (inputs, labels) =
           Inr (apply_gradients state (grad (loss_fn (flatten inputs) labels) (params state)),
                Some (mean_nll (map (jax_logits_of (params state)) inputs) labels),
                map (jax_logits_of (params state)) inputs)"
proof -
  have imgs: "list_all image_ok inputs" and len: "length labels = length inputs"
    using assms(2) by (simp_all add: batch_ok_def)
  have rs: "reshape_rows inputs = Inr (flatten inputs)"
    using assms(3) by (simp add: reshape_rows_def)
  have fw: "SimpleNN_apply (params state) (flatten inputs) = Inr (map (jax_logits_of (params state)) inputs)"
    using SimpleNN_apply_ok[OF assms(1) imgs assms(3)] .
  have rows: "list_all (\<lambda>row. length row = 10) (map (jax_logits_of (params state)) inputs)"
    by (simp add: list_all_iff jax_logits_length[OF assms(1)])
  have ce: "cross_entropy_loss (map (jax_logits_of (params state)) inputs) labels =
              Inr (Some (mean_nll (map (jax_logits_of (params state)) inputs) labels))"
    using cross_entropy_loss_value[OF rows _ assms(4)] len assms(3) by simp
  show ?thesis
    by (simp add: train_step_def rs loss_fn_def fw ce Let_def)
qed

lemma run_epoch_invariant:
  assumes "\<And>s b s'. I s \<Longrightarrow> stp s b = Inr s' \<Longrightarrow> I s'"
  shows "I s \<Longrightarrow> run_epoch stp s bs = Inr s' \<Longrightarrow> I s'"
proof (induction bs arbitrary: s)
  case Nil
  then show ?case by simp
next
  case (Cons b bs)
  from Cons.prems(2) obtain s1 where s1: "stp s b = Inr s1" and r: "run_epoch stp s1 bs = Inr s'"
    by (auto split: sum.splits)
  have "I s1" using assms[OF Cons.prems(1) s1] .
  from Cons.IH[OF this r] show ?case .
qed

lemma run_epochs_invariant:
  assumes "\<And>s b s'. I s \<Longrightarrow> stp s b = Inr s' \<Longrightarrow> I s'"
  shows "I s \<Longrightarrow> run_epochs stp loader s es = Inr s' \<Longrightarrow> I s'"
proof (induction es arbitrary: s)
  case Nil
  then show ?case by simp
next
  case (Cons e es)
  from Cons.prems(2) obtain s1 where s1: "run_epoch stp s (loader e) = Inr s1"
      and r: "run_epochs stp loader s1 es = Inr s'"
    by (auto split: sum.splits)
  have "I s1" using run_epoch_invariant[of I stp s "loader e" s1] assms Cons.prems(1) s1 by blast
  from Cons.IH[OF this r] show ?case .
qed

lemma same_shapes_trans: "same_shapes a b \<Longrightarrow> same_shapes b c \<Longrightarrow> same_shapes a c"
  by (simp add: same_shapes_def same_shape_def)

lemma same_shapes_refl: "same_shapes a a"
  by (simp add: same_shapes_def same_shape_def)

lemma train_torch_shapes:
  assumes "train_torch loss_backward trainloader (net, optimizer) = Inr (net', optimizer')"
      and "\<And>n outputs labels g. loss_backward n outputs labels = Inr g \<Longrightarrow> grads_ok n g"
      and "optimizer_ok net optimizer"
  shows "same_shapes net net' \<and> optimizer_ok net' optimizer'"
proof -
  let ?I = "\<lambda>s. same_shapes net (fst s) \<and> optimizer_ok (fst s) (snd s)"
  have stp: "?I s'" if "?I s" "training_step loss_backward s b = Inr s'" for s b s'
  proof -
    obtain n opt where s: "s = (n, opt)" by (cases s)
    obtain n' opt' where s': "s' = (n', opt')" by (cases s')
    have "same_shapes n n' \<and> optimizer_ok n' opt'"
      using training_step_shapes[of loss_backward n opt b n' opt'] that assms(2) s s' by auto
    then show ?thesis using that(1) s s' same_shapes_trans by auto
  qed
  have "?I (net, optimizer)" using assms(3) by (simp add: same_shapes_refl)
  from run_epochs_invariant[of ?I "training_step loss_backward", OF stp this assms(1)[unfolded train_torch_def]]
  show ?thesis by simp
qed

lemma train_jax_shapes:
  assumes "train_jax grad trainloader state = Inr state'"
      and "\<And>f p. tree_same_shape (grad f p) p"
      and "tree_same_shape (opt_state state) (params state)"
  shows "tree_same_shape (params state') (params state) \<and> tree_same_shape (opt_state state') (params state')"
proof -
  let ?I = "\<lambda>s. tree_same_shape (params s) (params state) \<and> tree_same_shape (opt_state s) (params s)"
  let ?stp = "\<lambda>s b. case train_step grad s b of Inl e \<Rightarrow> Inl e | Inr r \<Rightarrow> Inr (fst r)"
  have stp: "?I s'" if "?I s" "?stp s b = Inr s'" for s b s'
  proof -
    from that(2) obtain loss logits where t: "train_step grad s b = Inr (s', loss, logits)"
      by (auto split: sum.splits)
    from train_step_shapes[OF t assms(2)] that(1)
    have "tree_same_shape (params s') (params s)" "tree_same_shape (opt_state s') (params s')"
      by simp_all
    then show ?thesis using that(1) tree_same_shape_trans by blast
  qed
  have "?I state" using assms(3) by (simp add: tree_same_shape_def same_shape_def)
  from run_epochs_invariant[of ?I ?stp, OF stp this assms(1)[unfolded train_jax_def]]
  show ?thesis by simp
qed

lemma run_epoch_total:
  assumes "\<And>s b. I s \<Longrightarrow> b \<in> set bs \<Longrightarrow> \<exists>s'. stp s b = Inr s' \<and> I s'"
  shows "I s \<Longrightarrow> \<exists>s'. run_epoch stp s bs = Inr s' \<and> I s'"
  using assms
proof (induction bs arbitrary: s)
  case Nil
  then show ?case by simp
next
  case (Cons b bs)
  from Cons.prems(2)[OF Cons.prems(1), of b] obtain s1 where s1: "stp s b = Inr s1" "I s1"
    by auto
  have "\<exists>s'. run_epoch stp s1 bs = Inr s' \<and> I s'"
    using Cons.IH[OF s1(2)] Cons.prems(2) by auto
  then show ?case using s1(1) by simp
qed

lemma run_epochs_total:
  assumes "\<And>s b e. I s \<Longrightarrow> e \<in> set es \<Longrightarrow> b \<in> set (loader e) \<Longrightarrow> \<exists>s'. stp s b = Inr s' \<and> I s'"
  shows "I s \<Longrightarrow> \<exists>s'. run_epochs stp loader s es = Inr s' \<and> I s'"
  using assms
proof (induction es arbitrary: s)
  case Nil
  then show ?case by simp
next
  case (Cons e es)
  have step: "\<exists>s'. stp s0 b = Inr s' \<and> I s'" if "I s0" "b \<in> set (loader e)" for s0 b
    using Cons.prems(2)[OF that(1) _ that(2)] by simp
  have "\<exists>s1. run_epoch stp s (loader e) = Inr s1 \<and> I s1"
    by (rule run_epoch_total[of I "loader e" stp s, OF step Cons.prems(1)])
  then obtain s1 where s1: "run_epoch stp s (loader e) = Inr s1" "I s1" by auto
  have step': "\<exists>s'. stp s0 b = Inr s' \<and> I s'"
    if "I s0" "e' \<in> set es" "b \<in> set (loader e')" for s0 e' b
    using Cons.prems(2)[OF that(1) _ that(3)] that(2) by simp
  have "\<exists>s'. run_epochs stp loader s1 es = Inr s' \<and> I s'"
    by (rule Cons.IH[OF s1(2) step'])
  then show ?case using s1(1) by simp
qed

lemma train_torch_total:
  assumes "net_ok net" "optimizer_ok net optimizer"
      and "\<And>e. list_all (\<lambda>b. list_all image_ok (fst b)) (trainloader e)"
      and "\<And>n outputs labels. \<exists>g. loss_backward n outputs labels = Inr g \<and> grads_ok n g"
  shows "\<exists>s'. train_torch loss_backward trainloader (net, optimizer) = Inr s'"
proof -
  let ?I = "\<lambda>s. net_ok (fst s) \<and> optimizer_ok (fst s) (snd s)"
  have stp: "\<exists>s'. training_step loss_backward s b = Inr s' \<and> ?I s'"
    if "?I s" "e \<in> set [0..<2]" "b \<in> set (trainloader e)" for s b e
  proof -
    obtain n opt where s: "s = (n, opt)" by (cases s)
    obtain inputs labels where b: "b = (inputs, labels)" by (cases b)
    have imgs: "list_all image_ok inputs"
      using assms(3)[of e] that(3) b by (auto simp: list_all_iff)
    obtain g where g: "loss_backward n (map (logits_of n) inputs) labels = Inr g" "grads_ok n g"
      using assms(4) by blast
    have nok: "net_ok n" and ook: "optimizer_ok n opt" using that(1) s by simp_all
    have r: "training_step loss_backward s b = Inr (optimizer_step opt n g)"
      unfolding s b using training_step_ok[of n inputs loss_backward labels g opt] nok imgs g(1) by simp
    have "net_ok (fst (optimizer_step opt n g))"
      using optimizer_step_shapes(1)[OF g(2) ook] nok net_ok_same_shapes by blast
    then show ?thesis using r optimizer_step_shapes(2)[OF g(2) ook] by simp
  qed
  have i: "?I (net, optimizer)" using assms(1,2) by simp
  have "\<exists>s'. run_epochs (training_step loss_backward) trainloader (net, optimizer) [0..<2] = Inr s' \<and> ?I s'"
    by (rule run_epochs_total[where I = ?I and es = "[0..<2]" and loader = trainloader, OF stp i])
  then show ?thesis unfolding train_torch_def by blast
qed

lemma train_jax_total:
  assumes "params_ok (params state)" "tree_same_shape (opt_state state) (params state)"
      and "\<And>e. list_all (\<lambda>b. batch_ok b \<and> fst b \<noteq> [] \<and> list_all (\<lambda>l. 0 \<le> l \<and> l \<le> 9) (snd b)) (trainloader e)"
      and "\<And>f p. tree_same_shape (grad f p) p"
  shows "\<exists>s'. train_jax grad trainloader state = Inr s'"
proof -
  let ?I = "\<lambda>s. params_ok (params s) \<and> tree_same_shape (opt_state s) (params s)"
  let ?stp = "\<lambda>s b. case train_step grad s b of Inl e \<Rightarrow> Inl e | Inr r \<Rightarrow> Inr (fst r)"
  have stp: "\<exists>s'. ?stp s b = Inr s' \<and> ?I s'"
    if "?I s" "e \<in> set [0..<2]" "b \<in> set (trainloader e)" for s b e
  proof -
    obtain inputs labels where b: "b = (inputs, labels)" by (cases b)
    have bo: "batch_ok (inputs, labels)" "inputs \<noteq> []" "list_all (\<lambda>l. 0 \<le> l \<and> l \<le> 9) labels"
      using assms(3)[of e] that(3) b by (auto simp: list_all_iff)
    have pok: "params_ok (params s)" and tok: "tree_same_shape (opt_state s) (params s)"
      using that(1) by simp_all
    let ?s' = "apply_gradients s (grad (loss_fn (flatten inputs) labels) (params s))"
    have r: "?stp s b = Inr ?s'"
      unfolding b by (simp add: train_step_ok[OF pok bo])
    have "params_ok (params ?s')"
      using apply_gradients_shapes(1)[OF assms(4) tok] pok params_ok_same_shape by blast
    then show ?thesis using r apply_gradients_shapes(2)[OF assms(4) tok] by blast
  qed
  have i: "?I state" using assms(1,2) by simp
  have "\<exists>s'. run_epochs ?stp trainloader state [0..<2] = Inr s' \<and> ?I s'"
    by (rule run_epochs_total[where I = ?I and es = "[0..<2]" and loader = trainloader, OF stp i])
  then show ?thesis unfolding train_jax_def by blast
qed

lemma example_contracts:
  "\<forall>n outputs labels g. example_loss_backward n outputs labels = Inr g \<longrightarrow> grads_ok n g"
  "\<forall>f p. tree_same_shape (example_grad f p) p"
  by (auto simp: example_loss_backward_def grads_ok_like example_grad_def tree_same_shape_def same_shape_def)

lemma example_ok:
  "net_ok example_net" "params_ok (params state0)"
  "batch_ok example_batch" "list_all image_ok (fst example_batch)" "fst example_batch \<noteq> []"
  "list_all (\<lambda>l. 0 \<le> l \<and> l \<le> 9) (snd example_batch)"
  "tree_same_shape (opt_state state0) (params state0)"
proof -
  show "net_ok example_net" by (simp add: example_net_def net_ok_const_net)
  show "params_ok (params state0)" by (simp add: state0_def params_ok_const)
  show "batch_ok example_batch" "list_all image_ok (fst example_batch)" "fst example_batch \<noteq> []"
    "list_all (\<lambda>l. 0 \<le> l \<and> l \<le> 9) (snd example_batch)"
    by (simp_all add: example_batch_def batch_ok_def image_ok_zero_image)
  show "tree_same_shape (opt_state state0) (params state0)"
    by (simp add: state0_def tree_same_shape_def same_shape_def const_params_def)
qed

subsection \<open>The optimizers against the classic momentum rule\<close>

lemma apply_gradients_leaves:
  "dense_bias (Dense_0 (params (apply_gradients state grads))) =
     fst (optax_tensor_step (dense_bias (Dense_0 (params state)), dense_bias (Dense_0 (opt_state state)))
            (dense_bias (Dense_0 grads)))"
  "dense_bias (Dense_0 (opt_state (apply_gradients state grads))) =
     snd (optax_tensor_step (dense_bias (Dense_0 (params state)), dense_bias (Dense_0 (opt_state state)))
            (dense_bias (Dense_0 grads)))"
  "kernel (Dense_0 (params (apply_gradients state grads))) =
     fst (optax_tensor_step_mat (kernel (Dense_0 (params state)), kernel (Dense_0 (opt_state state)))
            (kernel (Dense_0 grads)))"
  "kernel (Dense_0 (opt_state (apply_gradients state grads))) =
     snd (optax_tensor_step_mat (kernel (Dense_0 (params state)), kernel (Dense_0 (opt_state state)))
            (kernel (Dense_0 grads)))"
  "dense_bias (Dense_1 (params (apply_gradients state grads))) =
     fst (optax_tensor_step (dense_bias (Dense_1 (params state)), dense_bias (Dense_1 (opt_state state)))
            (dense_bias (Dense_1 grads)))"
  "kernel (Dense_1 (params (apply_gradients state grads))) =
     fst (optax_tensor_step_mat (kernel (Dense_1 (params state)), kernel (Dense_1 (opt_state state)))
            (kernel (Dense_1 grads)))"
  by (simp_all add: apply_gradients_def tx_update_def apply_updates_def tree_map_def tree_map2_def
        optax_tensor_step_def optax_tensor_step_mat_def Let_def)

lemma trajectory_simulation:
  assumes "\<And>s t g. R s t \<Longrightarrow> P g \<Longrightarrow> R (f s g) (h t g)"
      and "\<And>s t. R s t \<Longrightarrow> fst s = fst t"
  shows "R s t \<Longrightarrow> list_all P gs \<Longrightarrow> map fst (trajectory f s gs) = map fst (trajectory h t gs)"
proof (induction gs arbitrary: s t)
  case Nil
  then show ?case by simp
next
  case (Cons g gs)
  have r: "R (f s g) (h t g)" using assms(1) Cons.prems by simp
  have "map fst (trajectory f (f s g) gs) = map fst (trajectory h (h t g) gs)"
    using Cons.IH[OF r] Cons.prems(2) by simp
  then show ?case using assms(2)[OF r] by (simp add: Let_def)
qed

lemma torch_rel_step:
  assumes "torch_rel a s t" "length g = length (fst s)"
  shows "torch_rel a (sgd_single_tensor a m s g) (classic_step a m t g)"
proof (cases "snd s")
  case None
  have v: "map2 (\<lambda>v g. m * v - a * g) (zeros_like (fst t)) g = map (\<lambda>x. (- a) * x) g"
    using assms by (auto simp: torch_rel_def zeros_like_def list_eq_iff_nth_eq)
  have p: "map2 (\<lambda>p b. p + (- a) * b) (fst t) g = map2 (\<lambda>p v. p + v) (fst t) (map (\<lambda>x. (- a) * x) g)"
    by (auto simp: list_eq_iff_nth_eq)
  show ?thesis
    using assms None v p
    by (simp add: torch_rel_def sgd_single_tensor_def sgd_buffer_def classic_step_def Let_def)
next
  case (Some b)
  have lb: "length b = length (fst t)" and sv: "snd t = map (\<lambda>x. (- a) * x) b" and st: "fst s = fst t"
    using assms(1) Some by (simp_all add: torch_rel_def)
  have v: "map2 (\<lambda>v g. m * v - a * g) (map (\<lambda>x. (- a) * x) b) g =
           map (\<lambda>x. (- a) * x) (map2 (\<lambda>b g. m * b + g) b g)"
    by (auto simp: list_eq_iff_nth_eq algebra_simps)
  have p: "map2 (\<lambda>p b. p + (- a) * b) (fst t) (map2 (\<lambda>b g. m * b + g) b g) =
           map2 (\<lambda>p v. p + v) (fst t) (map (\<lambda>x. (- a) * x) (map2 (\<lambda>b g. m * b + g) b g))"
    by (auto simp: list_eq_iff_nth_eq)
  show ?thesis
    using assms(2) Some lb sv st v p
    by (simp add: torch_rel_def sgd_single_tensor_def sgd_buffer_def classic_step_def Let_def)
qed

lemma optax_rel_step:
  assumes "optax_rel s t" "length g = length (fst s)"
  shows "optax_rel (optax_tensor_step s g) (classic_step learning_rate decay t g)"
proof -
  have st: "fst s = fst t" and ls: "length (snd s) = length (fst t)"
    and sv: "snd t = map (\<lambda>x. (- learning_rate) * x) (snd s)"
    using assms(1) by (simp_all add: optax_rel_def)
  have v: "map2 (\<lambda>v g. decay * v - learning_rate * g) (map (\<lambda>x. (- learning_rate) * x) (snd s)) g =
           map (\<lambda>x. (- learning_rate) * x) (map2 (\<lambda>g t. g + decay * t) g (snd s))"
    by (auto simp: list_eq_iff_nth_eq algebra_simps)
  show ?thesis
    using assms(2) st ls sv v
    by (simp add: optax_rel_def optax_tensor_step_def classic_step_def Let_def)
qed

lemma vel_zero:
  "length z = length g \<Longrightarrow>
   map2 (\<lambda>v g. m * v - a * g) (map (\<lambda>_. 0) z) g = map (\<lambda>x. (- a) * x) (g :: vec)"
  by (auto simp: list_eq_iff_nth_eq)

lemma vel_step:
  "map2 (\<lambda>v g. m * v - a * g) (map (\<lambda>x. (- a) * x) b) g =
   map (\<lambda>x. (- a) * x) (map2 (\<lambda>b g. m * b + g) b (g :: vec))"
  by (auto simp: list_eq_iff_nth_eq algebra_simps)

lemma vel_step_optax:
  "map2 (\<lambda>v g. m * v - a * g) (map (\<lambda>x. (- a) * x) t) g =
   map (\<lambda>x. (- a) * x) (map2 (\<lambda>g t. g + m * t) g (t :: vec))"
  by (auto simp: list_eq_iff_nth_eq algebra_simps)

lemma par_step:
  "map2 (\<lambda>p b. p + (- a) * b) p b = map2 (\<lambda>p v. p + v) p (map (\<lambda>x. (- a) * x) (b :: vec))"
  by (auto simp: list_eq_iff_nth_eq)

lemma vel_zero_mat:
  "same_shape z g \<Longrightarrow>
   map2 (map2 (\<lambda>v g. m * v - a * g)) (map (map (\<lambda>_. 0)) z) g = map (map (\<lambda>x. (- a) * x)) (g :: mat)"
proof (induction z arbitrary: g)
  case Nil
  then show ?case by (simp add: same_shape_def)
next
  case (Cons r z)
  then obtain r' g' where g: "g = r' # g'" by (cases g) (auto simp: same_shape_def)
  have l: "length r = length r'" and s: "same_shape z g'"
    using Cons.prems g by (simp_all add: same_shape_def)
  show ?case unfolding g using vel_zero[OF l, of m a] Cons.IH[OF s] by simp
qed

lemma vel_step_mat:
  "map2 (map2 (\<lambda>v g. m * v - a * g)) (map (map (\<lambda>x. (- a) * x)) b) g =
   map (map (\<lambda>x. (- a) * x)) (map2 (map2 (\<lambda>b g. m * b + g)) b (g :: mat))"
proof (induction b arbitrary: g)
  case Nil
  then show ?case by simp
next
  case (Cons r b)
  show ?case
  proof (cases g)
    case Nil
    then show ?thesis by simp
  next
    case (Cons r' g')
    show ?thesis unfolding Cons using vel_step[of m a r r'] Cons.IH[of g'] by simp
  qed
qed

lemma vel_step_optax_mat:
  "map2 (map2 (\<lambda>v g. m * v - a * g)) (map (map (\<lambda>x. (- a) * x)) t) g =
   map (map (\<lambda>x. (- a) * x)) (map2 (map2 (\<lambda>g t. g + m * t)) g (t :: mat))"
proof (induction t arbitrary: g)
  case Nil
  then show ?case by simp
next
  case (Cons r t)
  show ?case
  proof (cases g)
    case Nil
    then show ?thesis by simp
  next
    case (Cons r' g')
    show ?thesis unfolding Cons using vel_step_optax[of m a r r'] Cons.IH[of g'] by simp
  qed
qed

lemma par_step_mat:
  "map2 (map2 (\<lambda>p b. p + (- a) * b)) p b =
   map2 (map2 (\<lambda>p v. p + v)) p (map (map (\<lambda>x. (- a) * x)) (b :: mat))"
proof (induction p arbitrary: b)
  case Nil
  then show ?case by simp
next
  case (Cons r p)
  show ?case
  proof (cases b)
    case Nil
    then show ?thesis by simp
  next
    case (Cons r' b')
    show ?thesis unfolding Cons using par_step[of a r r'] Cons.IH[of b'] by simp
  qed
qed

lemma same_shape_step:
  assumes "same_shape b p"
  shows "same_shape (map (map k) b) (map2 (map2 f) p (map (map k) b))"
    and "same_shape b (map2 (map2 f) p (map (map k) b))"
proof -
  have kb: "same_shape (map (map k) b) b" by (rule same_shape_map)
  have "same_shape p (map (map k) b)"
    by (rule same_shape_sym[OF same_shape_trans[OF kb assms]])
  from same_shape_map2[OF this]
  have r: "same_shape (map2 (map2 f) p (map (map k) b)) (map (map k) b)" .
  show "same_shape (map (map k) b) (map2 (map2 f) p (map (map k) b))"
    by (rule same_shape_sym[OF r])
  show "same_shape b (map2 (map2 f) p (map (map k) b))"
    by (rule same_shape_sym[OF same_shape_trans[OF r kb]])
qed

lemma torch_rel_mat_step:
  assumes "torch_rel_mat a s t" "same_shape g (fst s)"
  shows "torch_rel_mat a (sgd_single_tensor_mat a m s g) (classic_step_mat a m t g)"
proof -
  have st: "fst s = fst t" using assms(1) by (simp add: torch_rel_mat_def)
  have gp: "same_shape g (fst t)" using assms(2) st by simp
  define b' where "b' = sgd_buffer_mat m (snd s) g"
  have vel: "map2 (map2 (\<lambda>v g. m * v - a * g)) (snd t) g = map (map (\<lambda>x. (- a) * x)) b'"
    and shape: "same_shape b' (fst t)"
  proof -
    show "map2 (map2 (\<lambda>v g. m * v - a * g)) (snd t) g = map (map (\<lambda>x. (- a) * x)) b'"
    proof (cases "snd s")
      case None
      then have "snd t = map (map (\<lambda>_. 0)) (fst t)"
        using assms(1) by (simp add: torch_rel_mat_def zeros_like_mat_def)
      then show ?thesis
        using vel_zero_mat[OF same_shape_sym[OF gp], of m a] None
        by (simp add: b'_def sgd_buffer_mat_def)
    next
      case (Some b)
      then have "snd t = map (map (\<lambda>x. (- a) * x)) b"
        using assms(1) by (simp add: torch_rel_mat_def)
      then show ?thesis
        using vel_step_mat[of m a b g] Some by (simp add: b'_def sgd_buffer_mat_def)
    qed
    show "same_shape b' (fst t)"
    proof (cases "snd s")
      case None
      then show ?thesis using gp by (simp add: b'_def sgd_buffer_mat_def)
    next
      case (Some b)
      then have "same_shape b (fst t)" using assms(1) by (simp add: torch_rel_mat_def)
      then have "same_shape b g" using gp same_shape_sym same_shape_trans by blast
      from same_shape_map2[OF this] have "same_shape (map2 (map2 (\<lambda>b g. m * b + g)) b g) g" .
      then have "same_shape (map2 (map2 (\<lambda>b g. m * b + g)) b g) (fst t)"
        using gp by (rule same_shape_trans)
      then show ?thesis using Some by (simp add: b'_def sgd_buffer_mat_def)
    qed
  qed
  have s': "sgd_single_tensor_mat a m s g =
             (map2 (map2 (\<lambda>p v. p + v)) (fst t) (map (map (\<lambda>x. (- a) * x)) b'), Some b')"
    using par_step_mat[of a "fst t" b'] st
    by (simp add: sgd_single_tensor_mat_def Let_def b'_def)
  have t': "classic_step_mat a m t g =
             (map2 (map2 (\<lambda>p v. p + v)) (fst t) (map (map (\<lambda>x. (- a) * x)) b'),
              map (map (\<lambda>x. (- a) * x)) b')"
    using vel by (simp add: classic_step_mat_def Let_def)
  show ?thesis
    unfolding s' t' using same_shape_step[OF shape] by (simp add: torch_rel_mat_def)
qed

lemma optax_rel_mat_step:
  assumes "optax_rel_mat s t" "same_shape g (fst s)"
  shows "optax_rel_mat (optax_tensor_step_mat s g) (classic_step_mat learning_rate decay t g)"
proof -
  have st: "fst s = fst t" and sh: "same_shape (snd s) (fst t)"
    and sv: "snd t = map (map (\<lambda>x. (- learning_rate) * x)) (snd s)"
    using assms(1) by (simp_all add: optax_rel_mat_def)
  have gp: "same_shape g (fst t)" using assms(2) st by simp
  define b' where "b' = map2 (map2 (\<lambda>g t. g + decay * t)) g (snd s)"
  have "same_shape g (snd s)" using gp sh same_shape_sym same_shape_trans by blast
  from same_shape_map2[OF this] have shape: "same_shape b' (fst t)"
    unfolding b'_def using sh same_shape_trans by blast
  have vel: "map2 (map2 (\<lambda>v g. decay * v - learning_rate * g)) (snd t) g =
             map (map (\<lambda>x. (- learning_rate) * x)) b'"
    unfolding sv b'_def by (rule vel_step_optax_mat)
  have s': "optax_tensor_step_mat s g =
             (map2 (map2 (\<lambda>p v. p + v)) (fst t) (map (map (\<lambda>x. (- learning_rate) * x)) b'), b')"
    using st by (simp add: optax_tensor_step_mat_def Let_def b'_def)
  have t': "classic_step_mat learning_rate decay t g =
             (map2 (map2 (\<lambda>p v. p + v)) (fst t) (map (map (\<lambda>x. (- learning_rate) * x)) b'),
              map (map (\<lambda>x. (- learning_rate) * x)) b')"
    using vel by (simp add: classic_step_mat_def Let_def)
  show ?thesis
    unfolding s' t' using same_shape_step[OF shape] by (simp add: optax_rel_mat_def)
qed

lemma length_classic_step:
  "length (snd t) = length (fst t) \<Longrightarrow> length g = length (fst t) \<Longrightarrow>
   length (fst (classic_step a m t g)) = length (fst t)"
  by (simp add: classic_step_def Let_def)

lemma torch_trajectory:
  assumes "list_all (\<lambda>g. length g = length p) gs"
  shows "map fst (trajectory (sgd_single_tensor a m) (p, None) gs) =
         map fst (trajectory (classic_step a m) (p, zeros_like p) gs)"
proof -
  let ?R = "\<lambda>s t. torch_rel a s t \<and> length (fst t) = length p"
  have step: "?R (sgd_single_tensor a m s g) (classic_step a m t g)"
    if "?R s t" "length g = length p" for s t g
  proof -
    have st: "fst s = fst t" and lv: "length (snd t) = length (fst t)"
      using that(1) by (simp_all add: torch_rel_def)
    have "torch_rel a (sgd_single_tensor a m s g) (classic_step a m t g)"
      using torch_rel_step[of a s t g m] that st by simp
    moreover have "length (fst (classic_step a m t g)) = length p"
      using length_classic_step[OF lv, of g a m] that by simp
    ultimately show ?thesis by simp
  qed
  have fst_eq: "fst s = fst t" if "?R s t" for s t
    using that by (simp add: torch_rel_def)
  have init: "?R (p, None) (p, zeros_like p)"
    by (simp add: torch_rel_def zeros_like_def)
  show ?thesis
    by (rule trajectory_simulation[where R = ?R and P = "\<lambda>g. length g = length p", OF step fst_eq init assms])
qed

lemma optax_trajectory:
  assumes "list_all (\<lambda>g. length g = length p) gs"
  shows "map fst (trajectory optax_tensor_step (p, zeros_like p) gs) =
         map fst (trajectory (classic_step learning_rate decay) (p, zeros_like p) gs)"
proof -
  let ?R = "\<lambda>s t. optax_rel s t \<and> length (fst t) = length p"
  have step: "?R (optax_tensor_step s g) (classic_step learning_rate decay t g)"
    if "?R s t" "length g = length p" for s t g
  proof -
    have st: "fst s = fst t" and lv: "length (snd t) = length (fst t)"
      using that(1) by (simp_all add: optax_rel_def)
    have "optax_rel (optax_tensor_step s g) (classic_step learning_rate decay t g)"
      using optax_rel_step[of s t g] that st by simp
    moreover have "length (fst (classic_step learning_rate decay t g)) = length p"
      using length_classic_step[OF lv, of g learning_rate decay] that by simp
    ultimately show ?thesis by simp
  qed
  have fst_eq: "fst s = fst t" if "?R s t" for s t
    using that by (simp add: optax_rel_def)
  have init: "?R (p, zeros_like p) (p, zeros_like p)"
    by (simp add: optax_rel_def zeros_like_def)
  show ?thesis
    by (rule trajectory_simulation[where R = ?R and P = "\<lambda>g. length g = length p", OF step fst_eq init assms])
qed

lemma shape_classic_step_mat:
  assumes "same_shape (snd t) (fst t)" "same_shape g (fst t)"
  shows "same_shape (fst (classic_step_mat a m t g)) (fst t)"
proof -
  have "same_shape (snd t) g"
    by (rule same_shape_trans[OF assms(1) same_shape_sym[OF assms(2)]])
  from same_shape_map2[OF this]
  have v: "same_shape (map2 (map2 (\<lambda>v g. m * v - a * g)) (snd t) g) (fst t)"
    using assms(2) by (rule same_shape_trans)
  from same_shape_map2[OF same_shape_sym[OF v]]
  have "same_shape (map2 (map2 (\<lambda>p v. p + v)) (fst t) (map2 (map2 (\<lambda>v g. m * v - a * g)) (snd t) g))
          (map2 (map2 (\<lambda>v g. m * v - a * g)) (snd t) g)" .
  then show ?thesis using v by (simp add: classic_step_mat_def Let_def same_shape_def)
qed

lemma torch_trajectory_mat:
  assumes "list_all (\<lambda>g. same_shape g p) gs"
  shows "map fst (trajectory (sgd_single_tensor_mat a m) (p, None) gs) =
         map fst (trajectory (classic_step_mat a m) (p, zeros_like_mat p) gs)"
proof -
  let ?R = "\<lambda>s t. torch_rel_mat a s t \<and> same_shape (fst t) p"
  have step: "?R (sgd_single_tensor_mat a m s g) (classic_step_mat a m t g)"
    if "?R s t" "same_shape g p" for s t g
  proof -
    have st: "fst s = fst t" and lv: "same_shape (snd t) (fst t)" and tp: "same_shape (fst t) p"
      using that(1) by (simp_all add: torch_rel_mat_def)
    have gt: "same_shape g (fst t)"
      by (rule same_shape_trans[OF that(2) same_shape_sym[OF tp]])
    have "torch_rel_mat a (sgd_single_tensor_mat a m s g) (classic_step_mat a m t g)"
      using torch_rel_mat_step[of a s t g m] that(1) gt st by simp
    moreover have "same_shape (fst (classic_step_mat a m t g)) p"
      by (rule same_shape_trans[OF shape_classic_step_mat[OF lv gt] tp])
    ultimately show ?thesis by simp
  qed
  have fst_eq: "fst s = fst t" if "?R s t" for s t
    using that by (simp add: torch_rel_mat_def)
  have init: "?R (p, None) (p, zeros_like_mat p)"
    by (simp add: torch_rel_mat_def zeros_like_mat_def same_shape_def comp_def)
  show ?thesis
    by (rule trajectory_simulation[where R = ?R and P = "\<lambda>g. same_shape g p", OF step fst_eq init assms])
qed

lemma optax_trajectory_mat:
  assumes "list_all (\<lambda>g. same_shape g p) gs"
  shows "map fst (trajectory optax_tensor_step_mat (p, zeros_like_mat p) gs) =
         map fst (trajectory (classic_step_mat learning_rate decay) (p, zeros_like_mat p) gs)"
proof -
  let ?R = "\<lambda>s t. optax_rel_mat s t \<and> same_shape (snd t) (fst t) \<and> same_shape (fst t) p"
  have step: "?R (optax_tensor_step_mat s g) (classic_step_mat learning_rate decay t g)"
    if "?R s t" "same_shape g p" for s t g
  proof -
    have st: "fst s = fst t" and lv: "same_shape (snd t) (fst t)" and tp: "same_shape (fst t) p"
      using that(1) unfolding optax_rel_mat_def by blast+
    have gt: "same_shape g (fst t)"
      by (rule same_shape_trans[OF that(2) same_shape_sym[OF tp]])
    have r: "optax_rel_mat (optax_tensor_step_mat s g) (classic_step_mat learning_rate decay t g)"
      using optax_rel_mat_step[of s t g] that(1) gt st by simp
    have p': "same_shape (fst (classic_step_mat learning_rate decay t g)) (fst t)"
      by (rule shape_classic_step_mat[OF lv gt])
    have v': "same_shape (snd (classic_step_mat learning_rate decay t g)) (fst (classic_step_mat learning_rate decay t g))"
    proof -
      have "same_shape (snd t) g"
        by (rule same_shape_trans[OF lv same_shape_sym[OF gt]])
      from same_shape_map2[OF this]
      have "same_shape (snd (classic_step_mat learning_rate decay t g)) g"
        by (simp add: classic_step_mat_def Let_def)
      then have "same_shape (snd (classic_step_mat learning_rate decay t g)) (fst t)"
        using gt by (rule same_shape_trans)
      then show ?thesis using same_shape_sym[OF p'] by (rule same_shape_trans)
    qed
    show ?thesis using r v' same_shape_trans[OF p' tp] by simp
  qed
  have fst_eq: "fst s = fst t" if "?R s t" for s t
    using that by (simp add: optax_rel_mat_def)
  have init: "?R (p, zeros_like_mat p) (p, zeros_like_mat p)"
    by (simp add: optax_rel_mat_def zeros_like_mat_def same_shape_def comp_def)
  show ?thesis
    by (rule trajectory_simulation[where R = ?R and P = "\<lambda>g. same_shape g p", OF step fst_eq init assms])
qed

subsection \<open>The weight grid\<close>

lemma plot_loop_tiles:
  "list_all (\<lambda>row. length row = 784) weights \<Longrightarrow>
   plot_loop weights i (replicate n \<lparr>shown = None, axis_on = True\<rparr>) =
     Inr (map (\<lambda>j. if j < length weights then tile (weights ! j) else blank) [i..<i + n])"
proof (induction n arbitrary: i)
  case 0
  then show ?case by simp
next
  case (Suc n)
  have r: "i < length weights \<Longrightarrow> reshape 28 28 (weights ! i) = Inr (rows_of 28 28 (weights ! i))"
    using Suc.prems by (simp add: reshape_def list_all_length)
  have u: "[i..<i + Suc n] = i # [Suc i..<Suc i + n]"
    by (simp add: upt_rec)
  show ?case
    unfolding u using Suc.IH[OF Suc.prems, of "Suc i"] r
    by (simp add: tile_def blank_def)
qed

lemma plot_weights_128:
  assumes "has_shape 128 784 weights"
  shows "plot_weights weights = Inr (map tile weights @ replicate 4 blank)"
proof -
  have rows: "list_all (\<lambda>row. length row = 784) weights" and len: "length weights = 128"
    using assms by (simp_all add: has_shape_def)
  have s: "[0..<0 + 11 * 12] = [0..<128] @ [128..<132::nat]"
    using upt_add_eq_append[of 0 128 4] by simp
  have a: "map (\<lambda>j. if j < length weights then tile (weights ! j) else blank) [0..<128] = map tile weights"
    using len by (simp add: list_eq_iff_nth_eq)
  have "map (\<lambda>j. if j < length weights then tile (weights ! j) else blank) [128..<132] =
          map (\<lambda>j. blank) [128..<132::nat]"
    using len by (intro map_cong) auto
  moreover have "map (\<lambda>j. blank) [128..<132::nat] = replicate 4 blank"
    by (simp add: eval_nat_numeral)
  ultimately have b: "map (\<lambda>j. if j < length weights then tile (weights ! j) else blank) [128..<132] = replicate 4 blank"
    by (rule trans)
  show ?thesis
    unfolding plot_weights_def subplots_def plot_loop_tiles[OF rows] s map_append a b ..
qed

lemma has_shape_transpose:
  assumes "has_shape r c k" "0 < r"
  shows "has_shape c r (transpose k)"
proof -
  have len: "length k = r" and rows: "\<And>i. i < length k \<Longrightarrow> length (k ! i) = c"
    using assms(1) by (simp_all add: has_shape_def list_all_length)
  have ne: "k = [] \<Longrightarrow> c = 0" using len assms(2) by auto
  have "transpose k = map (\<lambda>i. map (\<lambda>j. k ! j ! i) [0..<length k]) [0..<c]"
    by (rule transpose_rectangle[OF ne rows])
  then show ?thesis using len by (simp add: has_shape_def list_all_iff)
qed

lemma has_shape_rows_of: "length v = r * c \<Longrightarrow> has_shape r c (rows_of r c v)"
proof -
  assume l: "length v = r * c"
  have "length (take c (drop (i * c) v)) = c" if "i < r" for i
  proof -
    have "Suc i \<le> r" using that by simp
    then have "Suc i * c \<le> r * c" by (rule mult_le_mono1)
    then show ?thesis using l by simp
  qed
  then show ?thesis by (simp add: has_shape_def rows_of_def list_all_iff)
qed

lemma populated_grid: "populated (map tile weights @ replicate n blank) = length weights"
proof -
  have a: "populated (map tile weights) = length weights"
    by (induction weights) (simp_all add: populated_def tile_def)
  have b: "populated (replicate n blank) = 0"
    by (induction n) (simp_all add: populated_def blank_def)
  have "populated (map tile weights @ replicate n blank) =
        populated (map tile weights) + populated (replicate n blank)"
    by (simp add: populated_def)
  then show ?thesis using a b by simp
qed

subsection \<open>Transforms and batching\<close>

lemma to_tensor_range: "list_all (list_all (\<lambda>t. 0 \<le> t \<and> t \<le> 1)) (to_tensor p)"
proof -
  have "real (unat v) / 255 \<le> 1" for v :: "8 word"
  proof -
    have "unat v < 2 ^ 8" using unsigned_less[of v, where ?'a = nat] by simp
    then have "unat v \<le> 255" by simp
    then have "real (unat v) \<le> real 255" by (simp only: of_nat_le_iff)
    then show ?thesis by simp
  qed
  moreover have "0 \<le> real (unat v)" for v :: "8 word"
    by (simp only: of_nat_0_le_iff)
  ultimately show ?thesis by (simp add: to_tensor_def list_all_iff)
qed

lemma black_pixel: "apply_transform training_transform (PIL [[0]]) = Inr (Tensor [[0]])"
  "apply_transform test_transform (PIL [[0]]) = Inr (Tensor [[- 1]])"
  by (simp_all add: training_transform_def test_transform_def to_tensor_def)

lemma batch_sampler_keep:
  assumes "0 < bsize"
  shows "length batch < bsize \<Longrightarrow>
     concat (batch_sampler bsize False idxs batch) = batch @ idxs \<and>
     map length (batch_sampler bsize False idxs batch) =
       replicate ((length batch + length idxs) div bsize) bsize @
       (if (length batch + length idxs) mod bsize = 0 then []
        else [(length batch + length idxs) mod bsize])"
proof (induction idxs arbitrary: batch)
  case Nil
  then show ?case by simp
next
  case (Cons idx rest)
  show ?case
  proof (cases "length (batch @ [idx]) = bsize")
    case True
    have t: "length batch + length (idx # rest) = bsize + length rest"
      using True by simp
    have IH: "concat (batch_sampler bsize False rest []) = [] @ rest \<and>
     map length (batch_sampler bsize False rest []) =
       replicate ((length ([]::nat list) + length rest) div bsize) bsize @
       (if (length ([]::nat list) + length rest) mod bsize = 0 then []
        else [(length ([]::nat list) + length rest) mod bsize])"
      by (rule Cons.IH) (simp add: assms)
    have d: "(bsize + length rest) div bsize = Suc (length rest div bsize)"
      using assms by simp
    have m: "(bsize + length rest) mod bsize = length rest mod bsize"
      by simp
    show ?thesis
      unfolding t d m using IH True by (simp add: Let_def)
  next
    case False
    then have lt: "length (batch @ [idx]) < bsize" using Cons.prems by simp
    have t: "length batch + length (idx # rest) = length (batch @ [idx]) + length rest"
      by simp
    show ?thesis
      unfolding t using Cons.IH[OF lt] False by (simp add: Let_def)
  qed
qed

lemma index_batches_sizes:
  assumes "0 < batch_size loader" "\<not> drop_last loader"
  shows "concat (index_batches loader order) = sampled loader order"
    and "map length (index_batches loader order) =
       replicate (length (sampled loader order) div batch_size loader) (batch_size loader) @
       (if length (sampled loader order) mod batch_size loader = 0 then []
        else [length (sampled loader order) mod batch_size loader])"
    and "list_all (\<lambda>b. b \<noteq> []) (index_batches loader order)"
proof -
  note k = batch_sampler_keep[OF assms(1), of "[]" "sampled loader order"]
  show c: "concat (index_batches loader order) = sampled loader order"
    using k assms by (simp add: index_batches_def)
  show m: "map length (index_batches loader order) =
       replicate (length (sampled loader order) div batch_size loader) (batch_size loader) @
       (if length (sampled loader order) mod batch_size loader = 0 then []
        else [length (sampled loader order) mod batch_size loader])"
    using k assms by (simp add: index_batches_def)
  have "\<forall>l\<in>set (map length (index_batches loader order)). 0 < l"
    unfolding m using assms(1) by auto
  then show "list_all (\<lambda>b. b \<noteq> []) (index_batches loader order)"
    by (auto simp: list_all_iff)
qed

lemma traverse_getitem:
  assumes "list_all (\<lambda>i. i < length xs) b"
  shows "traverse (getitem xs) b = Inr (map (\<lambda>i. xs ! i) b)"
proof -
  have "list_all (\<lambda>i. getitem xs i = Inr (xs ! i)) b"
    using assms by (simp add: list_all_iff getitem_def)
  then show ?thesis by (rule traverse_all_Inr)
qed

lemma DataLoader_iter_collated:
  assumes "0 < batch_size loader" "\<not> drop_last loader"
      and "collate_fn loader = default_collate \<or> collate_fn loader = numpy_collate"
      and "list_all (\<lambda>i. i < length (dataset loader)) (sampled loader order)"
      and "shuffle loader \<longrightarrow> dataset loader \<noteq> []"
  shows "DataLoader_iter loader order = Inr (collated loader order)"
proof -
  let ?get = "\<lambda>b. case traverse (getitem (dataset loader)) b of
                    Inl e \<Rightarrow> Inl e
                  | Inr items \<Rightarrow> collate_fn loader items"
  have c: "concat (index_batches loader order) = sampled loader order"
    by (rule index_batches_sizes(1)[OF assms(1,2)])
  have ne: "list_all (\<lambda>b. b \<noteq> []) (index_batches loader order)"
    by (rule index_batches_sizes(3)[OF assms(1,2)])
  have one: "?get b =
          Inr (map (\<lambda>i. fst (dataset loader ! i)) b, map (\<lambda>i. snd (dataset loader ! i)) b)"
    if b: "b \<in> set (index_batches loader order)" for b
  proof -
    have "set b \<subseteq> set (concat (index_batches loader order))" using b by auto
    then have "list_all (\<lambda>i. i < length (dataset loader)) b"
      using assms(4) unfolding c by (auto simp: list_all_iff)
    then have t: "traverse (getitem (dataset loader)) b = Inr (map (\<lambda>i. dataset loader ! i) b)"
      by (rule traverse_getitem)
    have "b \<noteq> []" using ne b by (simp add: list_all_iff)
    then have "collate_fn loader (map (\<lambda>i. dataset loader ! i) b) =
          Inr (map (\<lambda>i. fst (dataset loader ! i)) b, map (\<lambda>i. snd (dataset loader ! i)) b)"
      using assms(3)
      by (auto simp: default_collate_def numpy_collate_def comp_def split: list.splits)
    then show ?thesis unfolding t by simp
  qed
  have "list_all (\<lambda>b. ?get b =
          Inr (map (\<lambda>i. fst (dataset loader ! i)) b, map (\<lambda>i. snd (dataset loader ! i)) b))
        (index_batches loader order)"
    using one by (simp add: list_all_iff)
  from traverse_all_Inr[OF this] show ?thesis
    using assms(1,5)
    by (simp add: DataLoader_iter_def Let_def collated_def index_batches_def sampled_def)
qed

lemma batch_sizes_collated:
  "batch_sizes (collated loader order) = map length (index_batches loader order)"
  by (simp add: batch_sizes_def collated_def comp_def)

lemma examples_collated:
  "examples (collated loader order) = map (\<lambda>i. dataset loader ! i) (concat (index_batches loader order))"
proof -
  have z: "zip (map (\<lambda>i. fst (f i)) b) (map (\<lambda>i. snd (f i)) b) = map f b" for f :: "nat \<Rightarrow> mat \<times> int" and b
    by (induction b) simp_all
  show ?thesis
    by (simp add: examples_def collated_def comp_def z map_concat)
qed

lemma collated_batch_ok:
  assumes "0 < batch_size loader" "\<not> drop_last loader"
      and "list_all (\<lambda>i. i < length (dataset loader)) (sampled loader order)"
      and "list_all (\<lambda>ex. image_ok (fst ex)) (dataset loader)"
  shows "list_all batch_ok (collated loader order)"
    and "list_all (\<lambda>b. fst b \<noteq> []) (collated loader order)"
proof -
  have c: "concat (index_batches loader order) = sampled loader order"
    by (rule index_batches_sizes(1)[OF assms(1,2)])
  have ne: "list_all (\<lambda>b. b \<noteq> []) (index_batches loader order)"
    by (rule index_batches_sizes(3)[OF assms(1,2)])
  have img: "image_ok (fst (dataset loader ! i))"
    if "b \<in> set (index_batches loader order)" "i \<in> set b" for b i
  proof -
    have "i \<in> set (concat (index_batches loader order))" using that by auto
    then have "i < length (dataset loader)" using assms(3) c by (simp add: list_all_iff)
    then show ?thesis using assms(4) by (simp add: list_all_length)
  qed
  show "list_all batch_ok (collated loader order)"
    using img by (auto simp: collated_def list_all_iff batch_ok_def)
  show "list_all (\<lambda>b. fst b \<noteq> []) (collated loader order)"
    using ne by (auto simp: collated_def list_all_iff)
qed





lemma loaders_64:
  assumes "loader = pytorch_trainloader data \<or> loader = pytorch_test_loader data \<or>
           loader = jax_trainloader data \<or> loader = jax_testloader data"
  shows "batch_size loader = 64" "\<not> drop_last loader" "dataset loader = data"
    "collate_fn loader = default_collate \<or> collate_fn loader = numpy_collate"
  using assms
  by (auto simp: pytorch_trainloader_def pytorch_test_loader_def jax_trainloader_def
        jax_testloader_def prepare_dataloader_def)

lemma loader_epoch:
  assumes "loader = pytorch_trainloader data \<or> loader = pytorch_test_loader data \<or>
           loader = jax_trainloader data \<or> loader = jax_testloader data"
      and "length (sampled loader order) = n"
      and "list_all (\<lambda>i. i < length data) (sampled loader order)"
      and "shuffle loader \<longrightarrow> data \<noteq> []"
  shows "DataLoader_iter loader order = Inr (collated loader order)"
    and "batch_sizes (collated loader order) =
           replicate (n div 64) 64 @ (if n mod 64 = 0 then [] else [n mod 64])"
proof -
  note l = loaders_64[OF assms(1)]
  have pos: "0 < batch_size loader" using l(1) by simp
  show "DataLoader_iter loader order = Inr (collated loader order)"
    by (rule DataLoader_iter_collated[OF pos l(2) l(4) assms(3)[folded l(3)] assms(4)[folded l(3)]])
  show "batch_sizes (collated loader order) =
           replicate (n div 64) 64 @ (if n mod 64 = 0 then [] else [n mod 64])"
    unfolding batch_sizes_collated index_batches_sizes(2)[OF pos l(2)] l(1) assms(2) ..
qed

lemma sampled_loaders:
  "sampled (pytorch_trainloader data) order = order"
  "sampled (jax_trainloader data) order = order"
  "sampled (pytorch_test_loader data) order = [0..<length data]"
  "sampled (jax_testloader data) order = [0..<length data]"
  by (simp_all add: sampled_def pytorch_trainloader_def pytorch_test_loader_def jax_trainloader_def
        jax_testloader_def prepare_dataloader_def)

lemma test_epoch_examples:
  assumes "loader = pytorch_test_loader data \<or> loader = jax_testloader data"
  shows "examples (collated loader order) = data"
proof -
  have d: "loader = pytorch_trainloader data \<or> loader = pytorch_test_loader data \<or>
           loader = jax_trainloader data \<or> loader = jax_testloader data"
    using assms(1) by blast
  note l = loaders_64[OF d]
  have s: "sampled loader order = [0..<length data]"
    using assms(1) sampled_loaders(3,4)[of data order] by (elim disjE) simp_all
  have pos: "0 < batch_size loader" using l(1) by simp
  show ?thesis
    unfolding examples_collated index_batches_sizes(1)[OF pos l(2)] s l(3)
    by (rule map_nth)
qed

lemma test_epoch_ok:
  assumes "loader = pytorch_test_loader data \<or> loader = jax_testloader data"
      and "list_all (\<lambda>ex. image_ok (fst ex)) data"
  shows "list_all batch_ok (collated loader order)"
    and "list_all (\<lambda>b. fst b \<noteq> []) (collated loader order)"
proof -
  have d: "loader = pytorch_trainloader data \<or> loader = pytorch_test_loader data \<or>
           loader = jax_trainloader data \<or> loader = jax_testloader data"
    using assms(1) by blast
  note l = loaders_64[OF d]
  have s: "sampled loader order = [0..<length data]"
    using assms(1) sampled_loaders(3,4)[of data order] by (elim disjE) simp_all
  have pos: "0 < batch_size loader" using l(1) by simp
  have idx: "list_all (\<lambda>i. i < length (dataset loader)) (sampled loader order)"
    unfolding s l(3) by (simp add: list_all_iff)
  have img: "list_all (\<lambda>ex. image_ok (fst ex)) (dataset loader)"
    using assms(2) l(3) by simp
  show "list_all batch_ok (collated loader order)"
    by (rule collated_batch_ok(1)[OF pos l(2) idx img])
  show "list_all (\<lambda>b. fst b \<noteq> []) (collated loader order)"
    by (rule collated_batch_ok(2)[OF pos l(2) idx img])
qed


lemma test_epoch_157:
  assumes "loader = pytorch_test_loader data \<or> loader = jax_testloader data"
      and "length data = 10000"
  shows "DataLoader_iter loader order = Inr (collated loader order)"
    and "length (collated loader order) = 157"
    and "batch_sizes (collated loader order) = replicate 156 64 @ [16]"
proof -
  have d: "loader = pytorch_trainloader data \<or> loader = pytorch_test_loader data \<or>
           loader = jax_trainloader data \<or> loader = jax_testloader data"
    using assms(1) by blast
  have so: "sampled loader order = [0..<length data]"
    using assms(1) sampled_loaders(3,4)[of data order] by (elim disjE) simp_all
  have s: "length (sampled loader order) = 10000"
    unfolding so using assms(2) by simp
  have i: "list_all (\<lambda>i. i < length data) (sampled loader order)"
    unfolding so by (simp add: list_all_iff)
  have n: "shuffle loader \<longrightarrow> data \<noteq> []"
    using assms(2) by auto
  note e = loader_epoch[OF d s i n]
  show "DataLoader_iter loader order = Inr (collated loader order)" by (rule e(1))
  show sz: "batch_sizes (collated loader order) = replicate 156 64 @ [16]"
    using e(2) by simp
  have "length (batch_sizes (collated loader order)) = 157"
    unfolding sz by simp
  then show "length (collated loader order) = 157" by (simp add: batch_sizes_def)
qed

subsection \<open>Evaluation of a split with a partial last batch, and the training run\<close>

lemma concat_replicate_replicate: "concat (replicate n (replicate m x)) = replicate (n * m) x"
  by (induction n) (simp_all add: replicate_add)

lemma chunks_unique:
  "concat xss = concat yss \<Longrightarrow> map length xss = map length yss \<Longrightarrow> xss = yss"
proof (induction xss arbitrary: yss)
  case Nil
  then show ?case by simp
next
  case (Cons x xs)
  then obtain y ys where y: "yss = y # ys" by (cases yss) auto
  from Cons.prems y have l: "length x = length y" "map length xs = map length ys" by simp_all
  from Cons.prems(1) y l(1) have "x = y" "concat xs = concat ys" by simp_all
  then show ?case using Cons.IH[of ys] l(2) y by simp
qed

lemma dot_zero: "dot (replicate n 0) x = 0"
proof -
  have "sum_list (map2 (*) (replicate n 0) x) = 0" for x :: vec
  proof (induction n arbitrary: x)
    case 0
    then show ?case by simp
  next
    case (Suc n)
    then show ?case by (cases x) simp_all
  qed
  then show ?thesis by (simp add: dot_def)
qed

lemma linear_out_zero:
  "length b = n \<Longrightarrow> linear_out \<lparr>weight = replicate n (replicate m 0), bias = b\<rparr> x = b"
proof -
  have "map2 (\<lambda>row c. dot row x + c) (replicate n (replicate m 0)) b = b" if "length b = n"
    using that
  proof (induction b arbitrary: n)
    case Nil
    then show ?case by simp
  next
    case (Cons c cs)
    then obtain k where k: "n = Suc k" "length cs = k" by (cases n) auto
    show ?case unfolding k(1) using Cons.IH[OF k(2)] by (simp add: dot_zero)
  qed
  then show "length b = n \<Longrightarrow> linear_out \<lparr>weight = replicate n (replicate m 0), bias = b\<rparr> x = b"
    by (simp add: linear_out_def)
qed

lemma logits_const_net: "length b = 10 \<Longrightarrow> logits_of (const_net b) img = b"
  by (simp add: logits_of_def const_net_def linear_out_zero)

lemma hit_const:
  "hit (const_net [1, 0, 0, 0, 0, 0, 0, 0, 0, 0]) (img, l) = (l = 0)"
  by (auto simp add: hit_def logits_const_net argmax_first)

lemma batch_fraction_items:
  "list_all batch_ok dl \<Longrightarrow>
   map (batch_fraction ps) dl =
     map (\<lambda>exs. real (length (filter (jax_hit ps) exs)) / real (length exs))
       (map (\<lambda>b. zip (fst b) (snd b)) dl)"
  by (induction dl) (simp_all add: batch_fraction_def batch_ok_def)

lemma skewed_ok:
  "length skewed_test_data = 10000"
  "list_all (\<lambda>ex. image_ok (fst ex)) skewed_test_data"
  "skewed_test_data = concat (replicate 156 (replicate 64 (zero_image, 0)) @ [replicate 16 (zero_image, 1)])"
  by (simp_all add: skewed_test_data_def list_all_iff image_ok_zero_image concat_replicate_replicate)

lemma skewed_item_batches:
  assumes "loader = pytorch_test_loader skewed_test_data \<or> loader = jax_testloader skewed_test_data"
  shows "map (\<lambda>b. zip (fst b) (snd b)) (collated loader order) =
           replicate 156 (replicate 64 (zero_image, 0)) @ [replicate 16 (zero_image, 1)]"
proof (rule chunks_unique)
  have "concat (map (\<lambda>b. zip (fst b) (snd b)) (collated loader order)) = skewed_test_data"
    using test_epoch_examples[OF assms, of order] by (simp add: examples_def)
  then show "concat (map (\<lambda>b. zip (fst b) (snd b)) (collated loader order)) =
        concat (replicate 156 (replicate 64 (zero_image, 0::int)) @ [replicate 16 (zero_image, 1)])"
    using skewed_ok(3) by simp
  have "map length (map (\<lambda>b. zip (fst b) (snd b)) (collated loader order)) =
          batch_sizes (collated loader order)"
    by (simp add: collated_def batch_sizes_def comp_def)
  then show "map length (map (\<lambda>b. zip (fst b) (snd b)) (collated loader order)) =
        map length (replicate 156 (replicate 64 (zero_image, 0::int)) @ [replicate 16 (zero_image, 1)])"
    using test_epoch_157(3)[OF assms skewed_ok(1), of order] by simp
qed

lemma jax_skewed:
  "fst (test_set_accuracy state0 (collated (jax_testloader skewed_test_data) order)) = Inr (Some (156 / 157))"
proof -
  let ?bs = "collated (jax_testloader skewed_test_data) order"
  have l: "jax_testloader skewed_test_data = pytorch_test_loader skewed_test_data \<or>
           jax_testloader skewed_test_data = jax_testloader skewed_test_data" by simp
  have ok: "params_ok (params state0)" by (simp add: state0_def params_ok_const)
  note bo = test_epoch_ok[OF l skewed_ok(2), of order]
  have len: "length ?bs = 157" by (rule test_epoch_157(2)[OF l skewed_ok(1)])
  then have ne: "?bs \<noteq> []" by auto
  have s: "sum_list (map (batch_fraction (params state0)) ?bs) = 156"
    unfolding batch_fraction_items[OF bo(1)] skewed_item_batches[OF l]
    by (simp add: state0_def jax_hit_const sum_list_replicate)
  show ?thesis
    unfolding test_set_accuracy_value[OF ok bo ne] s len by simp
qed

lemma torch_skewed:
  "fst (evaluate_model example_net (collated (pytorch_test_loader skewed_test_data) order)) = Inr (2496 / 25)"
proof -
  let ?bs = "collated (pytorch_test_loader skewed_test_data) order"
  have l: "pytorch_test_loader skewed_test_data = pytorch_test_loader skewed_test_data \<or>
           pytorch_test_loader skewed_test_data = jax_testloader skewed_test_data" by simp
  note bo = test_epoch_ok[OF l skewed_ok(2), of order]
  have ex: "examples ?bs = skewed_test_data" by (rule test_epoch_examples[OF l])
  have ne: "examples ?bs \<noteq> []" unfolding ex by (simp add: skewed_test_data_def)
  show ?thesis
    unfolding evaluate_model_value[OF example_ok(1) bo(1) ne] ex
    by (simp add: skewed_test_data_def example_net_def hit_const)
qed

lemma spec_skewed:
  "spec_accuracy (jax_hit (params state0)) skewed_test_data = 2496 / 25"
  by (simp add: spec_accuracy_def skewed_test_data_def state0_def jax_hit_const)





subsection \<open>C1: the reported accuracy\<close>

text \<open>
  C1. The reported accuracy is to be \<open>100 \<times> correct / total\<close>, with the examples whose
  first maximal logit is at the true label and all examples counted across all batches,
  in both pipelines. \<open>evaluate_model\<close> accumulates these counts. The JAX cell instead
  averages the per-batch fractions, and the batches of its own test loader are of unequal
  size: over the test split \<open>skewed_test_data\<close> of 10000 examples, which the loader cuts
  into 156 batches of 64 and a last batch of 16, and the network of \<open>state0\<close>, which
  is right on the first 9984 examples and wrong on the last 16, the cell prints
  \<open>156 / 157\<close>. That is neither the accuracy \<open>99.84\<close> of these examples nor this accuracy
  without the factor 100, \<open>0.9984\<close>; \<open>evaluate_model\<close> returns \<open>99.84\<close> on the same
  split with the network that computes the same logits.
\<close>

theorem jax_accuracy_unequal_batches:
  "(\<exists>bs. DataLoader_iter (jax_testloader skewed_test_data) [] = Inr bs \<and>
         batch_sizes bs = replicate 156 64 @ [16] \<and>
         examples bs = skewed_test_data \<and>
         fst (test_set_accuracy state0 bs) = Inr (Some (156 / 157)) \<and>
         spec_accuracy (jax_hit (params state0)) (examples bs) = 2496 / 25 \<and>
         fst (test_set_accuracy state0 bs) \<noteq>
           Inr (Some (spec_accuracy (jax_hit (params state0)) (examples bs))) \<and>
         fst (test_set_accuracy state0 bs) \<noteq>
           Inr (Some (spec_accuracy (jax_hit (params state0)) (examples bs) / 100)))
   \<and> (\<exists>bs. DataLoader_iter (pytorch_test_loader skewed_test_data) [] = Inr bs \<and>
         examples bs = skewed_test_data \<and>
         fst (evaluate_model example_net bs) = Inr (spec_accuracy (hit example_net) (examples bs)) \<and>
         spec_accuracy (hit example_net) (examples bs) = 2496 / 25)"
proof (intro conjI)
  let ?bs = "collated (jax_testloader skewed_test_data) []"
  have l: "jax_testloader skewed_test_data = pytorch_test_loader skewed_test_data \<or>
           jax_testloader skewed_test_data = jax_testloader skewed_test_data" by simp
  note e = test_epoch_157[OF l skewed_ok(1), of "[]"]
  have ex: "examples ?bs = skewed_test_data" by (rule test_epoch_examples[OF l])
  have "DataLoader_iter (jax_testloader skewed_test_data) [] = Inr ?bs \<and>
         batch_sizes ?bs = replicate 156 64 @ [16] \<and>
         examples ?bs = skewed_test_data \<and>
         fst (test_set_accuracy state0 ?bs) = Inr (Some (156 / 157)) \<and>
         spec_accuracy (jax_hit (params state0)) (examples ?bs) = 2496 / 25 \<and>
         fst (test_set_accuracy state0 ?bs) \<noteq>
           Inr (Some (spec_accuracy (jax_hit (params state0)) (examples ?bs))) \<and>
         fst (test_set_accuracy state0 ?bs) \<noteq>
           Inr (Some (spec_accuracy (jax_hit (params state0)) (examples ?bs) / 100))"
    unfolding ex spec_skewed jax_skewed using e(1,3) by simp
  then show "\<exists>bs. DataLoader_iter (jax_testloader skewed_test_data) [] = Inr bs \<and>
         batch_sizes bs = replicate 156 64 @ [16] \<and>
         examples bs = skewed_test_data \<and>
         fst (test_set_accuracy state0 bs) = Inr (Some (156 / 157)) \<and>
         spec_accuracy (jax_hit (params state0)) (examples bs) = 2496 / 25 \<and>
         fst (test_set_accuracy state0 bs) \<noteq>
           Inr (Some (spec_accuracy (jax_hit (params state0)) (examples bs))) \<and>
         fst (test_set_accuracy state0 bs) \<noteq>
           Inr (Some (spec_accuracy (jax_hit (params state0)) (examples bs) / 100))"
    by (rule exI)
next
  let ?bs = "collated (pytorch_test_loader skewed_test_data) []"
  have l: "pytorch_test_loader skewed_test_data = pytorch_test_loader skewed_test_data \<or>
           pytorch_test_loader skewed_test_data = jax_testloader skewed_test_data" by simp
  note e = test_epoch_157[OF l skewed_ok(1), of "[]"]
  have ex: "examples ?bs = skewed_test_data" by (rule test_epoch_examples[OF l])
  have sp: "spec_accuracy (hit example_net) skewed_test_data = 2496 / 25"
    by (simp add: spec_accuracy_def skewed_test_data_def example_net_def hit_const)
  have "DataLoader_iter (pytorch_test_loader skewed_test_data) [] = Inr ?bs \<and>
         examples ?bs = skewed_test_data \<and>
         fst (evaluate_model example_net ?bs) = Inr (spec_accuracy (hit example_net) (examples ?bs)) \<and>
         spec_accuracy (hit example_net) (examples ?bs) = 2496 / 25"
    unfolding ex sp torch_skewed using e(1) by simp
  then show "\<exists>bs. DataLoader_iter (pytorch_test_loader skewed_test_data) [] = Inr bs \<and>
         examples bs = skewed_test_data \<and>
         fst (evaluate_model example_net bs) = Inr (spec_accuracy (hit example_net) (examples bs)) \<and>
         spec_accuracy (hit example_net) (examples bs) = 2496 / 25"
    by (rule exI)
qed

subsection \<open>C2: the configured optimizers follow the classic momentum rule\<close>

text \<open>
  C2. For every parameter tensor and every sequence of gradients of its shape, with
  learning rate 0.001 and momentum 0.9, the parameters after every step of
  \<open>optim.SGD\<close> (buffer = momentum \<open>\<cdot>\<close> buffer + gradient; parameter \<open>-=\<close> lr \<open>\<cdot>\<close> buffer)
  and of \<open>optax.sgd\<close> are those of the classic rule velocity = momentum \<open>\<cdot>\<close> velocity
  \<open>-\<close> lr \<open>\<cdot>\<close> gradient; parameter \<open>+=\<close> velocity, started with velocity zero. Stated for
  tensors of one axis (the biases) and of two axes (the weights), in exact arithmetic.
\<close>

theorem optimizers_follow_classic_rule:
  "(list_all (\<lambda>g. length g = length p) gs \<longrightarrow>
      map fst (trajectory (sgd_single_tensor (lr SGD_init) (momentum SGD_init)) (p, None) gs) =
        map fst (trajectory (classic_step 0.001 0.9) (p, zeros_like p) gs) \<and>
      map fst (trajectory optax_tensor_step (p, zeros_like p) gs) =
        map fst (trajectory (classic_step 0.001 0.9) (p, zeros_like p) gs))
   \<and> (list_all (\<lambda>g. same_shape g w) ws \<longrightarrow>
      map fst (trajectory (sgd_single_tensor_mat (lr SGD_init) (momentum SGD_init)) (w, None) ws) =
        map fst (trajectory (classic_step_mat 0.001 0.9) (w, zeros_like_mat w) ws) \<and>
      map fst (trajectory optax_tensor_step_mat (w, zeros_like_mat w) ws) =
        map fst (trajectory (classic_step_mat 0.001 0.9) (w, zeros_like_mat w) ws))"
proof -
  have c: "lr SGD_init = 0.001" "momentum SGD_init = 0.9" "learning_rate = 0.001" "decay = 0.9"
    by (simp_all add: SGD_init_def learning_rate_def decay_def)
  show ?thesis
    using torch_trajectory[of p gs "0.001" "0.9"] optax_trajectory[of p gs]
      torch_trajectory_mat[of w ws "0.001" "0.9"] optax_trajectory_mat[of w ws]
    unfolding c by blast
qed

theorem optimizers_follow_classic_rule_witness:
  "list_all (\<lambda>g. length g = length [1, 2 :: real]) [[1, 1], [0, 2 :: real]] \<and>
   list_all (\<lambda>g. same_shape g [[1], [2 :: real]]) [[[1], [1 :: real]]] \<and>
   map fst (trajectory (sgd_single_tensor (lr SGD_init) (momentum SGD_init)) ([1, 2], None) [[1, 1], [0, 2]]) =
     [[0.999, 1.999], [0.9981, 1.9961]] \<and>
   map fst (trajectory optax_tensor_step ([1, 2], zeros_like [1, 2]) [[1, 1], [0, 2]]) =
     [[0.999, 1.999], [0.9981, 1.9961]] \<and>
   map fst (trajectory (classic_step 0.001 0.9) ([1, 2], zeros_like [1, 2]) [[1, 1], [0, 2]]) =
     [[0.999, 1.999], [0.9981, 1.9961]] \<and>
   map fst (trajectory (sgd_single_tensor_mat (lr SGD_init) (momentum SGD_init)) ([[1], [2]], None) [[[1], [1]]]) =
     map fst (trajectory (classic_step_mat 0.001 0.9) ([[1], [2]], zeros_like_mat [[1], [2]]) [[[1], [1]]]) \<and>
   map fst (trajectory optax_tensor_step_mat ([[1], [2]], zeros_like_mat [[1], [2]]) [[[1], [1]]]) =
     map fst (trajectory (classic_step_mat 0.001 0.9) ([[1], [2]], zeros_like_mat [[1], [2]]) [[[1], [1]]])"
proof -
  have h1: "list_all (\<lambda>g. length g = length [1, 2 :: real]) [[1, 1], [0, 2 :: real]]"
    by simp
  have h2: "list_all (\<lambda>g. same_shape g [[1], [2 :: real]]) [[[1], [1 :: real]]]"
    by (simp add: same_shape_def)
  have v: "map fst (trajectory (classic_step 0.001 0.9) ([1, 2], zeros_like [1, 2]) [[1, 1], [0, 2]]) =
     [[0.999, 1.999], [0.9981, 1.9961]]"
    by (simp add: classic_step_def zeros_like_def Let_def)
  from optimizers_follow_classic_rule[of "[1, 2]" "[[1, 1], [0, 2]]" "[[1], [2]]" "[[[1], [1]]]"] h1 h2 v
  show ?thesis by presburger
qed

subsection \<open>C3: the weight grid shows 128 tiles and 4 blank cells\<close>

text \<open>
  C3. For a first-layer weight matrix of 128 rows of 784 entries, the loop over the 132
  cells of the 11 by 12 grid puts the row \<open>i\<close>, reshaped to 28 by 28, into cell \<open>i\<close> for
  the first 128 cells and leaves the last 4 cells without an image; exactly 128 cells
  are populated. This holds for the PyTorch cell, which plots \<open>fc1.weight\<close>, and for the
  JAX cell, which plots the transposed 784 by 128 kernel.
\<close>

theorem weight_grid_tiles:
  "(has_shape 128 784 weights \<longrightarrow>
      plot_weights weights = Inr (map tile weights @ replicate 4 blank) \<and>
      length (map tile weights) = 128 \<and>
      length (map tile weights @ replicate 4 blank) = 11 * 12 \<and>
      list_all (\<lambda>row. shown (tile row) = Some (rows_of 28 28 row) \<and> has_shape 28 28 (rows_of 28 28 row)) weights \<and>
      populated (map tile weights @ replicate 4 blank) = 128 \<and>
      shown blank = None)
   \<and> (net_ok net \<longrightarrow>
      plot_torch net = Inr (map tile (weight (fc1 net)) @ replicate 4 blank) \<and>
      has_shape 128 784 (weight (fc1 net)))
   \<and> (params_ok (params state) \<longrightarrow>
      plot_jax state = Inr (map tile (transpose (kernel (Dense_0 (params state)))) @ replicate 4 blank) \<and>
      has_shape 128 784 (transpose (kernel (Dense_0 (params state)))))"
proof (intro conjI impI)
  assume h: "has_shape 128 784 weights"
  show "plot_weights weights = Inr (map tile weights @ replicate 4 blank)"
    by (rule plot_weights_128[OF h])
  show "length (map tile weights) = 128" using h by (simp add: has_shape_def)
  show "length (map tile weights @ replicate 4 blank) = 11 * 12" using h by (simp add: has_shape_def)
  have r: "has_shape 28 28 (rows_of 28 28 row)" if "row \<in> set weights" for row
  proof -
    from h that have "length row = 28 * 28" by (simp add: has_shape_def list_all_iff)
    then show ?thesis by (rule has_shape_rows_of)
  qed
  show "list_all (\<lambda>row. shown (tile row) = Some (rows_of 28 28 row) \<and> has_shape 28 28 (rows_of 28 28 row)) weights"
    by (simp add: list_all_iff tile_def r)
  show "populated (map tile weights @ replicate 4 blank) = 128"
    using h by (simp add: populated_grid has_shape_def)
  show "shown blank = None" by (simp add: blank_def)
next
  assume "net_ok net"
  then show "has_shape 128 784 (weight (fc1 net))" by (simp add: net_ok_def)
  then show "plot_torch net = Inr (map tile (weight (fc1 net)) @ replicate 4 blank)"
    unfolding plot_torch_def by (rule plot_weights_128)
next
  assume "params_ok (params state)"
  then have "has_shape 784 128 (kernel (Dense_0 (params state)))" by (simp add: params_ok_def)
  then show t: "has_shape 128 784 (transpose (kernel (Dense_0 (params state))))"
    by (rule has_shape_transpose) simp
  show "plot_jax state = Inr (map tile (transpose (kernel (Dense_0 (params state)))) @ replicate 4 blank)"
    unfolding plot_jax_def by (rule plot_weights_128[OF t])
qed

theorem weight_grid_tiles_witness:
  "has_shape 128 784 (replicate 128 (replicate 784 0)) \<and> net_ok example_net \<and> params_ok (params state0) \<and>
   plot_weights (replicate 128 (replicate 784 0)) =
     Inr (map tile (replicate 128 (replicate 784 0)) @ replicate 4 blank) \<and>
   populated (map tile (replicate 128 (replicate 784 0)) @ replicate 4 blank) = 128 \<and>
   plot_torch example_net = Inr (map tile (weight (fc1 example_net)) @ replicate 4 blank) \<and>
   plot_jax state0 = Inr (map tile (transpose (kernel (Dense_0 (params state0)))) @ replicate 4 blank)"
proof -
  have a: "has_shape 128 784 (replicate 128 (replicate 784 0))"
    by (simp add: has_shape_def list_all_iff)
  from weight_grid_tiles[of "replicate 128 (replicate 784 0)" example_net state0] a example_ok(1,2)
  show ?thesis by blast
qed

subsection \<open>C4: training steps preserve the parameter shapes\<close>

text \<open>
  C4. No training step changes the shape of a parameter tensor. In the PyTorch pipeline a
  step that completes leaves the two weights and the two biases with the shapes they had,
  and so does the whole two-epoch loop started with a fresh optimizer; in the JAX pipeline
  \<open>train_step\<close> and the whole loop started from \<open>TrainState.create\<close> do the same. In
  particular the shapes \<open>(128, 784), (128), (10, 128), (10)\<close> of \<open>Net\<close> and
  \<open>(784, 128), (128), (128, 10), (10)\<close> of \<open>SimpleNN\<close> are kept. The gradients that the
  automatic differentiation returns are assumed to have the shapes of the parameters, and
  the momentum buffers of the optimizer keep those shapes as well.
\<close>

theorem training_preserves_shapes:
  "(training_step loss_backward (net, optimizer) b = Inr (net', optimizer') \<and>
    (\<forall>n outputs labels g. loss_backward n outputs labels = Inr g \<longrightarrow> grads_ok n g) \<and>
    optimizer_ok net optimizer \<longrightarrow>
      same_shapes net net' \<and> optimizer_ok net' optimizer' \<and> (net_ok net \<longrightarrow> net_ok net'))
   \<and> (train_torch loss_backward trainloader (net, SGD_init) = Inr (net'', optimizer'') \<and>
      (\<forall>n outputs labels g. loss_backward n outputs labels = Inr g \<longrightarrow> grads_ok n g) \<longrightarrow>
      same_shapes net net'' \<and> (net_ok net \<longrightarrow> net_ok net''))
   \<and> (train_step grad state b = Inr (state', loss, logits) \<and>
      (\<forall>f p. tree_same_shape (grad f p) p) \<and>
      tree_same_shape (opt_state state) (params state) \<longrightarrow>
      tree_same_shape (params state') (params state) \<and>
      tree_same_shape (opt_state state') (params state') \<and>
      (params_ok (params state) \<longrightarrow> params_ok (params state')))
   \<and> (train_jax grad trainloader (TrainState_create ps) = Inr state'' \<and>
      (\<forall>f p. tree_same_shape (grad f p) p) \<longrightarrow>
      tree_same_shape (params state'') ps \<and> (params_ok ps \<longrightarrow> params_ok (params state'')))"
proof (intro conjI impI)
  assume h: "training_step loss_backward (net, optimizer) b = Inr (net', optimizer') \<and>
    (\<forall>n outputs labels g. loss_backward n outputs labels = Inr g \<longrightarrow> grads_ok n g) \<and>
    optimizer_ok net optimizer"
  then have r: "same_shapes net net' \<and> optimizer_ok net' optimizer'"
    using training_step_shapes[of loss_backward net optimizer b net' optimizer'] by blast
  then show "same_shapes net net'" "optimizer_ok net' optimizer'" by simp_all
  assume "net_ok net"
  then show "net_ok net'" using r net_ok_same_shapes by blast
next
  assume h: "train_torch loss_backward trainloader (net, SGD_init) = Inr (net'', optimizer'') \<and>
      (\<forall>n outputs labels g. loss_backward n outputs labels = Inr g \<longrightarrow> grads_ok n g)"
  then have r: "same_shapes net net'' \<and> optimizer_ok net'' optimizer''"
    using train_torch_shapes[of loss_backward trainloader net SGD_init net'' optimizer'']
      optimizer_ok_init by blast
  then show "same_shapes net net''" by simp
  assume "net_ok net"
  then show "net_ok net''" using r net_ok_same_shapes by blast
next
  assume h: "train_step grad state b = Inr (state', loss, logits) \<and>
      (\<forall>f p. tree_same_shape (grad f p) p) \<and>
      tree_same_shape (opt_state state) (params state)"
  then have r: "tree_same_shape (params state') (params state) \<and>
         tree_same_shape (opt_state state') (params state') \<and> step state' = step state + 1"
    using train_step_shapes[of grad state b state' loss logits] by blast
  then show "tree_same_shape (params state') (params state)"
     "tree_same_shape (opt_state state') (params state')" by simp_all
  assume "params_ok (params state)"
  then show "params_ok (params state')" using r params_ok_same_shape by blast
next
  assume h: "train_jax grad trainloader (TrainState_create ps) = Inr state'' \<and>
      (\<forall>f p. tree_same_shape (grad f p) p)"
  have i: "tree_same_shape (opt_state (TrainState_create ps)) (params (TrainState_create ps))"
    by (simp add: TrainState_create_def tx_init_shape)
  have r: "tree_same_shape (params state'') (params (TrainState_create ps))"
    using train_jax_shapes[of grad trainloader "TrainState_create ps" state'', OF _ _ i] h by blast
  then show r': "tree_same_shape (params state'') ps" by (simp add: TrainState_create_def)
  assume "params_ok ps"
  then show "params_ok (params state'')" using r' params_ok_same_shape by blast
qed

theorem training_preserves_shapes_witness:
  "optimizer_ok example_net SGD_init \<and> net_ok example_net \<and>
   tree_same_shape (opt_state state0) (params state0) \<and> params_ok (params state0) \<and>
   (\<exists>net' optimizer'.
      training_step example_loss_backward (example_net, SGD_init) example_batch = Inr (net', optimizer') \<and>
      same_shapes example_net net' \<and> optimizer_ok net' optimizer' \<and> net_ok net') \<and>
   (\<exists>net'' optimizer''.
      train_torch example_loss_backward (\<lambda>epoch. [example_batch]) (example_net, SGD_init) = Inr (net'', optimizer'') \<and>
      same_shapes example_net net'' \<and> net_ok net'') \<and>
   (\<exists>state' loss logits.
      train_step example_grad state0 example_batch = Inr (state', loss, logits) \<and>
      tree_same_shape (params state') (params state0) \<and>
      tree_same_shape (opt_state state') (params state') \<and> params_ok (params state')) \<and>
   (\<exists>state''.
      train_jax example_grad (\<lambda>epoch. [example_batch]) (TrainState_create (params state0)) = Inr state'' \<and>
      tree_same_shape (params state'') (params state0) \<and> params_ok (params state''))"
proof -
  define inputs where "inputs = [zero_image]"
  define labels where "labels = [0 :: int]"
  have b: "example_batch = (inputs, labels)"
    by (simp add: example_batch_def inputs_def labels_def)
  have io: "list_all image_ok inputs" "batch_ok (inputs, labels)" "inputs \<noteq> []"
    "list_all (\<lambda>l. 0 \<le> l \<and> l \<le> 9) labels"
    by (simp_all add: inputs_def labels_def image_ok_zero_image batch_ok_def)
  have t1: "training_step example_loss_backward (example_net, SGD_init) example_batch =
              Inr (optimizer_step SGD_init example_net (grads_like example_net))"
    unfolding b
    by (rule training_step_ok[of example_net inputs example_loss_backward labels "grads_like example_net" SGD_init,
          OF example_ok(1) io(1)])
       (simp add: example_loss_backward_def)
  obtain n1 o1 where s1: "optimizer_step SGD_init example_net (grads_like example_net) = (n1, o1)"
    by (cases "optimizer_step SGD_init example_net (grads_like example_net)")
  have "\<exists>s'. train_torch example_loss_backward (\<lambda>epoch. [example_batch]) (example_net, SGD_init) = Inr s'"
    by (rule train_torch_total)
       (simp_all add: example_ok optimizer_ok_init example_loss_backward_def grads_ok_like)
  then obtain n2 o2 where
    t2: "train_torch example_loss_backward (\<lambda>epoch. [example_batch]) (example_net, SGD_init) = Inr (n2, o2)"
    by (metis surj_pair)
  have t3: "train_step example_grad state0 example_batch =
           Inr (apply_gradients state0 (example_grad (loss_fn (flatten inputs) labels) (params state0)),
                Some (mean_nll (map (jax_logits_of (params state0)) inputs) labels),
                map (jax_logits_of (params state0)) inputs)"
    unfolding b by (rule train_step_ok[OF example_ok(2) io(2,3,4)])
  have "\<exists>s'. train_jax example_grad (\<lambda>epoch. [example_batch]) (TrainState_create (params state0)) = Inr s'"
    by (rule train_jax_total)
       (simp_all add: example_ok TrainState_create_def tx_init_shape example_contracts)
  then obtain s4 where
    t4: "train_jax example_grad (\<lambda>epoch. [example_batch]) (TrainState_create (params state0)) = Inr s4"
    by blast
  note inst = training_preserves_shapes[where loss_backward = example_loss_backward and net = example_net
      and optimizer = SGD_init and b = example_batch and net' = n1 and optimizer' = o1
      and trainloader = "\<lambda>epoch. [example_batch]" and net'' = n2 and optimizer'' = o2
      and grad = example_grad and state = state0
      and state' = "apply_gradients state0 (example_grad (loss_fn (flatten inputs) labels) (params state0))"
      and loss = "Some (mean_nll (map (jax_logits_of (params state0)) inputs) labels)"
      and logits = "map (jax_logits_of (params state0)) inputs"
      and ps = "params state0" and state'' = s4]
  show ?thesis
    using inst t1 s1 t2 t3 t4 example_contracts example_ok optimizer_ok_init[of example_net]
    by auto
qed

subsection \<open>C5: the number of batches per epoch\<close>



subsection \<open>C6: the cross-entropy loss is the mean negative log-likelihood\<close>

text \<open>
  C6. For a non-empty logits matrix of 10 columns and one label in \<open>[0, 9]\<close> per row,
  \<open>cross_entropy_loss\<close>, the negated mean over the examples of the sum over the classes
  of \<open>one_hot(label) \<cdot> log_softmax(logits)\<close>, is the mean over the examples of the
  negative log-likelihood that \<open>log_softmax\<close> gives to each example's true class.
\<close>

theorem cross_entropy_loss_is_mean_nll:
  "list_all (\<lambda>row. length row = 10) logits \<and> length labels = length logits \<and>
   list_all (\<lambda>l. 0 \<le> l \<and> l \<le> 9) labels \<and> logits \<noteq> [] \<longrightarrow>
   cross_entropy_loss logits labels = Inr (Some (mean_nll logits labels))"
  by (simp add: cross_entropy_loss_value)

theorem cross_entropy_loss_is_mean_nll_witness:
  "list_all (\<lambda>row. length row = 10) [[0, 0, 0, 0, 0, 0, 0, 0, 0, 0 :: real]] \<and>
   length [3 :: int] = length [[0, 0, 0, 0, 0, 0, 0, 0, 0, 0 :: real]] \<and>
   list_all (\<lambda>l. 0 \<le> l \<and> l \<le> 9) [3 :: int] \<and>
   cross_entropy_loss [[0, 0, 0, 0, 0, 0, 0, 0, 0, 0]] [3] = Inr (Some (ln 10))"
  using cross_entropy_loss_is_mean_nll[of "[[0, 0, 0, 0, 0, 0, 0, 0, 0, 0]]" "[3]"]
  by (simp add: mean_nll_uniform)

subsection \<open>C8: evaluation leaves parameters and optimizer state unchanged\<close>

text \<open>
  C8. Running the evaluator changes no parameter tensor and no optimizer state.
  \<open>evaluate_model\<close> returns the module with both layers as they were (only the training
  flag is cleared by \<open>model.eval()\<close>), the optimizer of the evaluation cell is the one
  it started with, and the JAX evaluation loop ends in the \<open>TrainState\<close> it started from,
  whatever the loader yields and also when an exception ends the run.
\<close>

theorem evaluation_leaves_parameters:
  "fc1 (snd (evaluate_model net dl)) = fc1 net \<and>
   fc2 (snd (evaluate_model net dl)) = fc2 net \<and>
   snd (evaluation_cell (net, optimizer) dl) = (net\<lparr>training := False\<rparr>, optimizer) \<and>
   snd (test_set_accuracy state dl) = state"
proof -
  have a: "snd (evaluation_cell (net, optimizer) dl) = (net\<lparr>training := False\<rparr>, optimizer)"
    using snd_evaluate_model[of net dl]
    by (cases "evaluate_model net dl") (simp add: evaluation_cell_def)
  have b: "snd (test_set_accuracy state dl) = state"
    by (simp add: test_set_accuracy_def split: sum.split)
  show ?thesis
    using a b by (simp add: snd_evaluate_model)
qed

subsection \<open>C9: the PyTorch test inputs are the training inputs rescaled\<close>

text \<open>
  C9. In the PyTorch pipeline the training loader applies \<open>ToTensor\<close> only, which gives
  values in \<open>[0, 1]\<close>, and the test loader applies \<open>Normalize((0.5,), (0.5,))\<close> after it:
  for every picture the tensor the evaluator feeds the model is \<open>2 \<cdot> t - 1\<close>, with
  values in \<open>[-1, 1]\<close>, where \<open>t\<close> is the tensor the trainer feeds for the same
  picture. The JAX pipeline applies \<open>ToTensor\<close> to both splits.
\<close>

theorem test_inputs_are_rescaled:
  "apply_transform training_transform (PIL p) = Inr (Tensor (to_tensor p)) \<and>
   apply_transform test_transform (PIL p) = Inr (Tensor (map (map (\<lambda>t. 2 * t - 1)) (to_tensor p))) \<and>
   list_all (list_all (\<lambda>t. 0 \<le> t \<and> t \<le> 1)) (to_tensor p) \<and>
   list_all (list_all (\<lambda>t. - 1 \<le> t \<and> t \<le> 1)) (map (map (\<lambda>t. 2 * t - 1)) (to_tensor p)) \<and>
   apply_transform jax_training_transform (PIL p) = Inr (Tensor (to_tensor p)) \<and>
   apply_transform jax_test_transform (PIL p) = Inr (Tensor (to_tensor p))"
proof -
  have n: "(\<lambda>v::real. (v - 0.5) / 0.5) = (\<lambda>t. 2 * t - 1)"
    by (auto simp: fun_eq_iff field_simps)
  have r: "list_all (list_all (\<lambda>t. - 1 \<le> t \<and> t \<le> 1)) (map (map (\<lambda>t. 2 * t - 1)) (to_tensor p))"
    using to_tensor_range[of p] by (auto simp: list_all_iff)
  show ?thesis
    using to_tensor_range[of p] r
    by (simp add: training_transform_def test_transform_def jax_training_transform_def
          jax_test_transform_def n)
qed

subsection \<open>C10: the division in \<open>evaluate_model\<close>\<close>

text \<open>
  C10. \<open>evaluate_model\<close> divides the accumulated \<open>correct\<close> by the accumulated
  \<open>total\<close> without a guard. For a well-formed network and a loader of well-formed
  batches that yields at least one example, the loop ends with \<open>0 < total\<close> and
  \<open>0 \<le> correct \<le> total\<close>, the division succeeds and the accuracy returned lies in
  \<open>[0, 100]\<close>. For the empty loader the division raises \<open>ZeroDivisionError\<close>.
\<close>

theorem evaluate_model_division_guard:
  "(net_ok net \<and> list_all batch_ok dl \<and> examples dl \<noteq> [] \<longrightarrow>
      (\<exists>correct total' acc.
          eval_loop (net\<lparr>training := False\<rparr>) dl 0 0 = Inr (correct, total') \<and>
          0 < total' \<and> 0 \<le> correct \<and> correct \<le> total' \<and>
          fst (evaluate_model net dl) = Inr acc \<and>
          acc = 100 * real_of_int correct / real_of_int total' \<and> 0 \<le> acc \<and> acc \<le> 100))
   \<and> fst (evaluate_model net []) = Inl ZeroDivisionError"
proof (intro conjI impI)
  assume h: "net_ok net \<and> list_all batch_ok dl \<and> examples dl \<noteq> []"
  let ?c = "int (length (filter (hit net) (examples dl)))"
  let ?t = "int (length (examples dl))"
  have ok: "net_ok (net\<lparr>training := False\<rparr>)" using h by (simp add: net_ok_eval_mode)
  have loop: "eval_loop (net\<lparr>training := False\<rparr>) dl 0 0 = Inr (?c, ?t)"
    using eval_loop_counts[OF ok, of dl 0 0] h by (simp add: hit_eval_mode)
  have tpos: "0 < ?t" using h by simp
  have cle: "?c \<le> ?t" by simp
  have cnn: "0 \<le> ?c" by simp
  have val: "fst (evaluate_model net dl) = Inr (100 * real_of_int ?c / real_of_int ?t)"
    using evaluate_model_value[of net dl] h by simp
  have lo: "0 \<le> 100 * real_of_int ?c / real_of_int ?t" by simp
  have "real_of_int ?c / real_of_int ?t \<le> 1"
    using tpos cle by (simp add: divide_le_eq_1)
  then have hi: "100 * real_of_int ?c / real_of_int ?t \<le> 100" by simp
  show "\<exists>correct total' acc.
          eval_loop (net\<lparr>training := False\<rparr>) dl 0 0 = Inr (correct, total') \<and>
          0 < total' \<and> 0 \<le> correct \<and> correct \<le> total' \<and>
          fst (evaluate_model net dl) = Inr acc \<and>
          acc = 100 * real_of_int correct / real_of_int total' \<and> 0 \<le> acc \<and> acc \<le> 100"
    using loop tpos cnn cle val lo hi by blast
next
  show "fst (evaluate_model net []) = Inl ZeroDivisionError"
    by (simp add: evaluate_model_def)
qed

theorem evaluate_model_division_guard_witness:
  "net_ok (const_net [1, 0, 0, 0, 0, 0, 0, 0, 0, 0]) \<and>
   list_all batch_ok [([zero_image], [0])] \<and>
   examples [([zero_image], [0])] \<noteq> [] \<and>
   (\<exists>acc. fst (evaluate_model (const_net [1, 0, 0, 0, 0, 0, 0, 0, 0, 0]) [([zero_image], [0])]) = Inr acc
       \<and> 0 \<le> acc \<and> acc \<le> 100)"
proof -
  have a: "net_ok (const_net [1, 0, 0, 0, 0, 0, 0, 0, 0, 0])"
    by (simp add: net_ok_const_net)
  have b: "list_all batch_ok [([zero_image], [0])]"
    by (simp add: batch_ok_def image_ok_zero_image)
  have c: "examples [([zero_image], [0])] \<noteq> []"
    by (simp add: examples_def)
  from evaluate_model_division_guard[of "const_net [1, 0, 0, 0, 0, 0, 0, 0, 0, 0]" "[([zero_image], [0])]"]
       a b c
  show ?thesis by blast
qed

end
